theory Spec2Isabelle
  imports Main "HOL-Library.Word"
begin

unbundle bit_operations_syntax

section \<open>Types shared by the command line functions of cmdline.c\<close>

type_synonym byte = "8 word"

text \<open>\<^verbatim>\<open>unsigned long\<close> is a 64-bit word; \<^verbatim>\<open>long\<close> is an \<^typ>\<open>int\<close> that
  \<open>strtol\<close> keeps within the 64-bit range.\<close>

type_synonym ulong = "64 word"

text \<open>The cursor \<^verbatim>\<open>char** args\<close>: \<open>None\<close> is the NULL pointer, \<open>Some s\<close> the rest
  of the command line.\<close>

type_synonym args = "string option"

text \<open>Every \<^verbatim>\<open>cb.log_err("KO: ...")\<close> followed by \<^verbatim>\<open>return -1\<close> is one value of
  \<open>diag\<close>; \<open>Decode_failed\<close> is the one \<^verbatim>\<open>return -1\<close> of \<open>build_ndef_msg\<close> that logs
  nothing.\<close>

datatype diag =
    No_arguments
  | No_operation
  | Invalid_operation string
  | No_token string
  | Invalid_value string string
  | Empty_token string
  | Invalid_sap string int
  | No_ndef_record
  | Invalid_ndef_flags ulong
  | Invalid_ndef_tnf
  | Invalid_eol string
  | Unknown_re ulong
  | Unknown_ntf_type ulong
  | Unknown_rf_index int
  | Unknown_deact_type ulong
  | Unknown_deact_reason ulong
  | Not_a_tag
  | No_active_re
  | No_active_rf
  | Dsap_is_0
  | Ssap_is_0
  | Snep_put_failed
  | Llcp_connect_failed
  | Rf_intf_activated_ntf_failed
  | Sr_set_for_long_payload nat
  | Decode_failed

text \<open>Constants of headers that are not among the sources (llcp.h, ndef.h, nfc.h,
  nfc-nci.h, nfc-tag.h, nfc-re.h). The functions below take them as a parameter.\<close>

record hdr_consts =
  LLCP_NUMBER_OF_SAPS :: int
  NDEF_FLAG_BITS :: ulong
  NDEF_NUMBER_OF_TNFS :: ulong
  NUMBER_OF_NCI_NOTIFICATION_TYPES :: ulong
  NUMBER_OF_SUPPORTED_NCI_RF_INTERFACES :: int
  NUMBER_OF_NCI_RF_DEACT_TYPE :: ulong
  NUMBER_OF_NCI_RF_DEACT_REASON :: ulong
  NCI_RF_DEACT_DISCOVERY :: ulong
  NCI_RF_DEACT_RF_LINK_LOSS :: ulong
  MAXIMUM_SUPPORTED_TAG_SIZE :: nat
  ARRAY_SIZE_nfc_res :: ulong

section \<open>The C library functions the lexer calls\<close>

text \<open>\<^verbatim>\<open>strsep(args, delim)\<close>: NULL when the cursor is NULL; otherwise the text up to
  the first character of \<open>delim\<close>, the cursor moving behind that character, or to NULL
  when the line holds none.\<close>

fun strsep :: "args \<Rightarrow> string \<Rightarrow> string option \<times> args" where
  "strsep None delim = (None, None)"
| "strsep (Some s) delim =
     (let tok = takeWhile (\<lambda>c. c \<notin> set delim) s
      in if length tok = length s then (Some s, None)
         else (Some tok, Some (drop (Suc (length tok)) s)))"

definition isspace :: "char \<Rightarrow> bool" where
  "isspace c = (c \<in> set [CHR '' '', CHR 0x09, CHR 0x0A, CHR 0x0B, CHR 0x0C, CHR 0x0D])"

definition digit_of :: "char \<Rightarrow> nat option" where
  "digit_of c =
     (let n = (of_char c :: nat)
      in if 48 \<le> n \<and> n \<le> 57 then Some (n - 48)
         else if 97 \<le> n \<and> n \<le> 122 then Some (n - 87)
         else if 65 \<le> n \<and> n \<le> 90 then Some (n - 55)
         else None)"

definition is_digit :: "nat \<Rightarrow> char \<Rightarrow> bool" where
  "is_digit b c = (case digit_of c of Some d \<Rightarrow> d < b | None \<Rightarrow> False)"

fun digits :: "nat \<Rightarrow> nat \<Rightarrow> string \<Rightarrow> nat" where
  "digits b acc [] = acc"
| "digits b acc (c # cs) =
     (case digit_of c of
        Some d \<Rightarrow> if d < b then digits b (acc * b + d) cs else acc
      | None \<Rightarrow> acc)"

text \<open>The subject sequence of \<^verbatim>\<open>strtol(tok, NULL, 0)\<close> and \<^verbatim>\<open>strtoul(tok, NULL, 0)\<close>:
  leading white space, an optional sign, then a hexadecimal number after \<^verbatim>\<open>0x\<close>, an
  octal one after \<^verbatim>\<open>0\<close>, a decimal one otherwise. The result is the sign and the
  magnitude of the longest run of digits; a token with no digit converts to 0 and leaves
  \<open>errno\<close> alone.\<close>

definition strto_parts :: "string \<Rightarrow> bool \<times> nat" where
  "strto_parts tok =
     (let s1 = dropWhile isspace tok;
          neg = (s1 \<noteq> [] \<and> hd s1 = CHR ''-'');
          s2 = (if s1 \<noteq> [] \<and> (hd s1 = CHR ''-'' \<or> hd s1 = CHR ''+'') then tl s1 else s1)
      in if 3 \<le> length s2 \<and> s2 ! 0 = CHR ''0'' \<and> (s2 ! 1 = CHR ''x'' \<or> s2 ! 1 = CHR ''X'')
            \<and> is_digit 16 (s2 ! 2)
         then (neg, digits 16 0 (drop 2 s2))
         else if s2 \<noteq> [] \<and> hd s2 = CHR ''0'' then (neg, digits 8 0 s2)
         else (neg, digits 10 0 s2))"

text \<open>\<open>strtol\<close> returns the value and whether it set \<open>errno\<close> (to ERANGE, clamping the
  value to LONG_MIN or LONG_MAX).\<close>

definition strtol :: "string \<Rightarrow> int \<times> bool" where
  "strtol tok =
     (let (neg, m) = strto_parts tok
      in if neg then (if 2 ^ 63 < m then (- (2 ^ 63), True) else (- int m, False))
         else (if 2 ^ 63 - 1 < m then (2 ^ 63 - 1, True) else (int m, False)))"

text \<open>\<open>strtoul\<close> negates a signed token in unsigned arithmetic; it sets \<open>errno\<close> and
  returns ULONG_MAX when the magnitude does not fit.\<close>

definition strtoul :: "string \<Rightarrow> ulong \<times> bool" where
  "strtoul tok =
     (let (neg, m) = strto_parts tok
      in if 2 ^ 64 - 1 < m then (- 1, True)
         else (if neg then - word_of_nat m else word_of_nat m, False))"

section \<open>The command lexer\<close>

definition lex_token :: "string \<Rightarrow> string \<Rightarrow> args \<Rightarrow> diag + (string \<times> args)" where
  "lex_token field delim args =
     (case strsep args delim of
        (None, args') \<Rightarrow> Inl (No_token field)
      | (Some tok, args') \<Rightarrow> Inr (tok, args'))"

definition parse_token_l :: "string \<Rightarrow> string \<Rightarrow> args \<Rightarrow> diag + (int \<times> args)" where
  "parse_token_l field delim args =
     (case lex_token field delim args of
        Inl e \<Rightarrow> Inl e
      | Inr (tok, args') \<Rightarrow>
          (case strtol tok of
             (val, True) \<Rightarrow> Inl (Invalid_value tok field)
           | (val, False) \<Rightarrow> Inr (val, args')))"

definition parse_token_ul :: "string \<Rightarrow> string \<Rightarrow> args \<Rightarrow> diag + (ulong \<times> args)" where
  "parse_token_ul field delim args =
     (case lex_token field delim args of
        Inl e \<Rightarrow> Inl e
      | Inr (tok, args') \<Rightarrow>
          (case strtoul tok of
             (val, True) \<Rightarrow> Inl (Invalid_value tok field)
           | (val, False) \<Rightarrow> Inr (val, args')))"

definition parse_token_s :: "string \<Rightarrow> string \<Rightarrow> args \<Rightarrow> bool \<Rightarrow> diag + (string \<times> args)" where
  "parse_token_s field delim args allow_empty =
     (case lex_token field delim args of
        Inl e \<Rightarrow> Inl e
      | Inr (val, args') \<Rightarrow>
          if \<not> allow_empty \<and> val = [] then Inl (Empty_token field)
          else Inr (val, args'))"

definition parse_sap :: "hdr_consts \<Rightarrow> string \<Rightarrow> args \<Rightarrow> bool \<Rightarrow> diag + (int \<times> args)" where
  "parse_sap K field args can_autodetect =
     (case parse_token_l field '' '' args of
        Inl e \<Rightarrow> Inl e
      | Inr (sap, args') \<Rightarrow>
          if (sap = - 1 \<and> \<not> can_autodetect) \<or> sap < - 1 \<or> \<not> (sap < LLCP_NUMBER_OF_SAPS K)
          then Inl (Invalid_sap field sap)
          else Inr (sap, args'))"

section \<open>base64url\<close>

text \<open>Modelled from the spec: base64.h and base64.c are not among the sources. The spec
  names a base64url encode/decode pair with explicit output-capacity bounds, whose decoder
  refuses to write past the capacity it is given. The alphabet is that of RFC 4648,
  section 5; text is unpadded (two characters carry one byte, three carry two, a single
  character carries none and is refused).\<close>

definition b64_value :: "char \<Rightarrow> nat option" where
  "b64_value c =
     (let n = (of_char c :: nat)
      in if 65 \<le> n \<and> n \<le> 90 then Some (n - 65)
         else if 97 \<le> n \<and> n \<le> 122 then Some (n - 71)
         else if 48 \<le> n \<and> n \<le> 57 then Some (n + 4)
         else if c = CHR ''-'' then Some 62
         else if c = CHR ''_'' then Some 63
         else None)"

definition b64_char :: "nat \<Rightarrow> char" where
  "b64_char v =
     (if v < 26 then char_of (v + 65)
      else if v < 52 then char_of (v + 71)
      else if v < 62 then char_of (v - 4)
      else if v = 62 then CHR ''-'' else CHR ''_'')"

fun b64_decode :: "string \<Rightarrow> byte list option" where
  "b64_decode [] = Some []"
| "b64_decode [a] = None"
| "b64_decode [a, b] =
     (case (b64_value a, b64_value b) of
        (Some x, Some y) \<Rightarrow> Some [word_of_nat (x * 4 + y div 16)]
      | _ \<Rightarrow> None)"
| "b64_decode [a, b, c] =
     (case (b64_value a, b64_value b, b64_value c) of
        (Some x, Some y, Some z) \<Rightarrow>
          Some [word_of_nat (x * 4 + y div 16), word_of_nat ((y mod 16) * 16 + z div 4)]
      | _ \<Rightarrow> None)"
| "b64_decode (a # b # c # d # rest) =
     (case (b64_value a, b64_value b, b64_value c, b64_value d) of
        (Some x, Some y, Some z, Some w) \<Rightarrow>
          (case b64_decode rest of
             Some bs \<Rightarrow>
               Some (word_of_nat (x * 4 + y div 16) # word_of_nat ((y mod 16) * 16 + z div 4)
                     # word_of_nat ((z mod 4) * 64 + w) # bs)
           | None \<Rightarrow> None)
      | _ \<Rightarrow> None)"

fun b64_encode :: "byte list \<Rightarrow> string" where
  "b64_encode [] = []"
| "b64_encode [p] = [b64_char (unat p div 4), b64_char ((unat p mod 4) * 16)]"
| "b64_encode [p, q] =
     [b64_char (unat p div 4), b64_char ((unat p mod 4) * 16 + unat q div 16),
      b64_char ((unat q mod 16) * 4)]"
| "b64_encode (p # q # r # rest) =
     b64_char (unat p div 4) # b64_char ((unat p mod 4) * 16 + unat q div 16)
     # b64_char ((unat q mod 16) * 4 + unat r div 64) # b64_char (unat r mod 64)
     # b64_encode rest"

text \<open>Modelled from the spec: \<^verbatim>\<open>decode_base64(in, ilen, out, olen)\<close> of base64.c gives
  the decoded bytes, written at \<open>out\<close>, or \<open>None\<close> for a negative result (text that is
  not base64url, or more than \<open>olen\<close> bytes).\<close>

definition decode_base64 :: "string \<Rightarrow> nat \<Rightarrow> byte list option" where
  "decode_base64 txt olen =
     (case b64_decode txt of
        None \<Rightarrow> None
      | Some bs \<Rightarrow> if length bs \<le> olen then Some bs else None)"

text \<open>Modelled from the spec: \<^verbatim>\<open>encode_base64(in, ilen, out, olen)\<close> of base64.c gives
  the text, or \<open>None\<close> when it does not fit \<open>olen\<close> characters.\<close>

definition encode_base64 :: "byte list \<Rightarrow> nat \<Rightarrow> string option" where
  "encode_base64 bs olen =
     (let txt = b64_encode bs in if length txt \<le> olen then Some txt else None)"

section \<open>NDEF records on the wire\<close>

text \<open>Modelled from the spec: ndef.h and ndef.c are not among the sources. The spec
  names the header bits MB, ME, SR and IL, the type name format TNF, and a record of
  header, type, id and payload. The layout is that of the NFC Forum's NDEF record: a
  byte of flags (upper five bits) and TNF (lower three bits), a one-byte type length, a
  payload length of one byte when SR is set and of four bytes (big endian) otherwise,
  and a one-byte id length when IL is set.\<close>

definition NDEF_FLAG_MB :: byte where "NDEF_FLAG_MB = 0x80"
definition NDEF_FLAG_ME :: byte where "NDEF_FLAG_ME = 0x40"
definition NDEF_FLAG_CF :: byte where "NDEF_FLAG_CF = 0x20"
definition NDEF_FLAG_SR :: byte where "NDEF_FLAG_SR = 0x10"
definition NDEF_FLAG_IL :: byte where "NDEF_FLAG_IL = 0x08"
definition NDEF_TNF_BITS :: byte where "NDEF_TNF_BITS = 0x07"

text \<open>Modelled from the spec: \<^verbatim>\<open>ndef_create_rec(ndef, flags, tnf, 0, 0, 0)\<close> of ndef.c
  stores the header at \<open>ndef\<close>, all lengths zero, and returns its size; it is not told
  how many bytes are left at \<open>ndef\<close>.\<close>

definition ndef_create_rec :: "byte \<Rightarrow> nat \<Rightarrow> byte list" where
  "ndef_create_rec flags tnf =
     [(flags AND NOT NDEF_TNF_BITS) OR (word_of_nat tnf AND NDEF_TNF_BITS), 0]
     @ (if flags AND NDEF_FLAG_SR \<noteq> 0 then [0] else [0, 0, 0, 0])
     @ (if flags AND NDEF_FLAG_IL \<noteq> 0 then [0] else [])"

text \<open>Modelled from the spec: the setters of ndef.h store into the header of the record
  that starts at offset \<open>ndef\<close> of the memory \<open>mem\<close>; a length that does not fit its
  field is cut to the field's width.\<close>

definition ndef_rec_set_type_len :: "byte list \<Rightarrow> nat \<Rightarrow> nat \<Rightarrow> byte list" where
  "ndef_rec_set_type_len mem ndef n = mem[ndef + 1 := word_of_nat n]"

definition ndef_rec_set_payload_len :: "byte list \<Rightarrow> nat \<Rightarrow> nat \<Rightarrow> byte list" where
  "ndef_rec_set_payload_len mem ndef n =
     (if mem ! ndef AND NDEF_FLAG_SR \<noteq> 0 then mem[ndef + 2 := word_of_nat n]
      else mem[ndef + 2 := word_of_nat (n div 2 ^ 24), ndef + 3 := word_of_nat (n div 2 ^ 16),
               ndef + 4 := word_of_nat (n div 2 ^ 8), ndef + 5 := word_of_nat n])"

definition ndef_rec_set_id_len :: "byte list \<Rightarrow> nat \<Rightarrow> nat \<Rightarrow> byte list" where
  "ndef_rec_set_id_len mem ndef n =
     mem[ndef + (if mem ! ndef AND NDEF_FLAG_SR \<noteq> 0 then 3 else 6) := word_of_nat n]"

text \<open>Modelled from the spec: the getters of ndef.h read the record at the head of \<open>m\<close>,
  the memory from the pointer \<open>ndef\<close> on.\<close>

definition ndef_rec_hdr_len :: "byte list \<Rightarrow> nat" where
  "ndef_rec_hdr_len m =
     2 + (if m ! 0 AND NDEF_FLAG_SR \<noteq> 0 then 1 else 4)
       + (if m ! 0 AND NDEF_FLAG_IL \<noteq> 0 then 1 else 0)"

definition ndef_rec_type_len :: "byte list \<Rightarrow> nat" where
  "ndef_rec_type_len m = unat (m ! 1)"

definition ndef_rec_payload_len :: "byte list \<Rightarrow> nat" where
  "ndef_rec_payload_len m =
     (if m ! 0 AND NDEF_FLAG_SR \<noteq> 0 then unat (m ! 2)
      else unat (m ! 2) * 2 ^ 24 + unat (m ! 3) * 2 ^ 16 + unat (m ! 4) * 2 ^ 8 + unat (m ! 5))"

definition ndef_rec_id_len :: "byte list \<Rightarrow> nat" where
  "ndef_rec_id_len m =
     (if m ! 0 AND NDEF_FLAG_IL \<noteq> 0
      then unat (m ! (if m ! 0 AND NDEF_FLAG_SR \<noteq> 0 then 3 else 6))
      else 0)"

definition ndef_rec_const_type :: "byte list \<Rightarrow> byte list" where
  "ndef_rec_const_type m = take (ndef_rec_type_len m) (drop (ndef_rec_hdr_len m) m)"

definition ndef_rec_const_id :: "byte list \<Rightarrow> byte list" where
  "ndef_rec_const_id m =
     take (ndef_rec_id_len m) (drop (ndef_rec_hdr_len m + ndef_rec_type_len m) m)"

definition ndef_rec_const_payload :: "byte list \<Rightarrow> byte list" where
  "ndef_rec_const_payload m =
     take (ndef_rec_payload_len m)
       (drop (ndef_rec_hdr_len m + ndef_rec_type_len m + ndef_rec_id_len m) m)"

definition ndef_rec_len :: "byte list \<Rightarrow> nat" where
  "ndef_rec_len m =
     ndef_rec_hdr_len m + ndef_rec_type_len m + ndef_rec_id_len m + ndef_rec_payload_len m"

section \<open>The NDEF builder\<close>

record nfc_ndef_record_param =
  r_flags :: ulong
  r_tnf :: nat
  r_type :: string
  r_id :: string
  r_payload :: string

text \<open>Subtraction of \<^verbatim>\<open>size_t\<close> values (64 bits): \<^verbatim>\<open>len-off\<close> wraps around when
  \<open>off\<close> is the larger.\<close>

definition size_sub :: "nat \<Rightarrow> nat \<Rightarrow> nat" where
  "size_sub a b = (a + 2 ^ 64 - b mod 2 ^ 64) mod 2 ^ 64"

text \<open>The flags of record \<open>i\<close> of \<open>nrecords\<close> (lines 69 to 72), cut to \<^verbatim>\<open>uint8_t\<close>.\<close>

definition rec_flags :: "nat \<Rightarrow> nat \<Rightarrow> nfc_ndef_record_param \<Rightarrow> byte" where
  "rec_flags i nrecords record =
     ucast (r_flags record)
     OR (if i = 0 then NDEF_FLAG_MB else 0)
     OR (if i + 1 = nrecords then NDEF_FLAG_ME else 0)
     OR (if length (r_id record) \<noteq> 0 then NDEF_FLAG_IL else 0)"

text \<open>One turn of the loop of \<open>build_ndef_msg\<close>. \<open>mem\<close> holds the bytes stored from
  \<open>buf\<close> on, so \<open>off\<close> is its length; the model keeps every byte the code stores, also
  one stored behind \<open>buf + len\<close>. The header is stored without a look at \<open>len\<close>.\<close>

definition build_ndef_rec ::
  "nat \<Rightarrow> nat \<Rightarrow> nat \<Rightarrow> byte list \<Rightarrow> nfc_ndef_record_param \<Rightarrow> diag + byte list" where
  "build_ndef_rec len nrecords i mem record =
     (let flags = rec_flags i nrecords record;
          ndef = length mem;
          mem1 = mem @ ndef_create_rec flags (r_tnf record)
      in case decode_base64 (r_type record) (size_sub len (length mem1)) of
           None \<Rightarrow> Inl Decode_failed
         | Some t \<Rightarrow>
             let mem2 = ndef_rec_set_type_len (mem1 @ t) ndef (length t)
             in case (if flags AND NDEF_FLAG_IL \<noteq> 0
                      then (case decode_base64 (r_id record) (size_sub len (length mem2)) of
                              None \<Rightarrow> Inl Decode_failed
                            | Some d \<Rightarrow> Inr (ndef_rec_set_id_len (mem2 @ d) ndef (length d)))
                      else Inr mem2) of
                  Inl e \<Rightarrow> Inl e
                | Inr mem3 \<Rightarrow>
                    (case decode_base64 (r_payload record) (size_sub len (length mem3)) of
                       None \<Rightarrow> Inl Decode_failed
                     | Some p \<Rightarrow>
                         if 255 < length p \<and> flags AND NDEF_FLAG_SR \<noteq> 0
                         then Inl (Sr_set_for_long_payload (length p))
                         else Inr (ndef_rec_set_payload_len (mem3 @ p) ndef (length p))))"

fun build_ndef_loop ::
  "nat \<Rightarrow> nat \<Rightarrow> nat \<Rightarrow> byte list \<Rightarrow> nfc_ndef_record_param list \<Rightarrow> diag + byte list" where
  "build_ndef_loop len nrecords i mem [] = Inr mem"
| "build_ndef_loop len nrecords i mem (record # rest) =
     (case build_ndef_rec len nrecords i mem record of
        Inl e \<Rightarrow> Inl e
      | Inr mem' \<Rightarrow> build_ndef_loop len nrecords (i + 1) mem' rest)"

text \<open>\<open>build_ndef_msg\<close>: the list holds the \<open>nrecords\<close> records at \<open>record\<close>; the
  result is \<open>Inl\<close> for \<^verbatim>\<open>-1\<close>, or the bytes stored, whose number is the \<open>off\<close>
  returned.\<close>

definition build_ndef_msg :: "nfc_ndef_record_param list \<Rightarrow> nat \<Rightarrow> diag + byte list" where
  "build_ndef_msg records len = build_ndef_loop len (length records) 0 [] records"

section \<open>The NDEF reporter\<close>

text \<open>One entry of the report: the TNF and the base64url text of type, id and payload;
  a text is \<open>None\<close> where \<open>encode_base64\<close> could not fit it into its 512 characters.\<close>

record ndef_entry =
  e_tnf :: byte
  e_type :: "string option"
  e_id :: "string option"
  e_payload :: "string option"

datatype report_err = Too_short | Reads_past_end

definition report_entry :: "byte list \<Rightarrow> ndef_entry" where
  "report_entry m =
     \<lparr> e_tnf = m ! 0 AND NDEF_TNF_BITS,
       e_type = encode_base64 (ndef_rec_const_type m) 512,
       e_id = encode_base64 (ndef_rec_const_id m) 512,
       e_payload = encode_base64 (ndef_rec_const_payload m) 512 \<rparr>"

text \<open>\<open>nfc_recv_process_ndef_cb\<close> over the \<open>remain\<close> bytes \<open>m\<close> at \<open>ndef\<close>; \<open>sizeof_ndef\<close>
  is \<^verbatim>\<open>sizeof(*ndef)\<close>, whose structure is declared in ndef.h. The C code
  compares \<open>remain\<close> with \<^verbatim>\<open>sizeof(*ndef)\<close> only; where a record's header or fields
  reach behind the message it reads bytes that are not the message's, which the model
  reports as \<open>Reads_past_end\<close>. The result is \<open>Inl\<close> for \<^verbatim>\<open>-1\<close>, or the entries
  logged, in order.\<close>

function nfc_recv_process_ndef_cb :: "nat \<Rightarrow> byte list \<Rightarrow> report_err + ndef_entry list" where
  "nfc_recv_process_ndef_cb sizeof_ndef m =
     (if m = [] then Inr []
      else if length m < sizeof_ndef then Inl Too_short
      else if length m < ndef_rec_hdr_len m then Inl Reads_past_end
      else if length m < ndef_rec_len m then Inl Reads_past_end
      else (case nfc_recv_process_ndef_cb sizeof_ndef (drop (ndef_rec_len m) m) of
              Inl e \<Rightarrow> Inl e
            | Inr es \<Rightarrow> Inr (report_entry m # es)))"
  by pat_completeness auto
termination
  by (relation "measure (\<lambda>(s, m). length m)") (auto simp: ndef_rec_len_def ndef_rec_hdr_len_def)

declare nfc_recv_process_ndef_cb.simps [simp del]

section \<open>Parsing NDEF records and indices\<close>

definition parse_ndef_rec :: "hdr_consts \<Rightarrow> args \<Rightarrow> diag + (nfc_ndef_record_param \<times> args)" where
  "parse_ndef_rec K args =
     (case strsep args ''['' of
        (None, args0) \<Rightarrow> Inl No_ndef_record
      | (Some p, args0) \<Rightarrow>
     (case parse_token_ul ''NDEF flags'' '' ,'' args0 of
        Inl e \<Rightarrow> Inl e
      | Inr (flags, args1) \<Rightarrow>
     if flags AND NOT (NDEF_FLAG_BITS K) \<noteq> 0 then Inl (Invalid_ndef_flags flags)
     else
     (case parse_token_ul ''NDEF TNF'' '' ,'' args1 of
        Inl e \<Rightarrow> Inl e
      | Inr (tnf, args2) \<Rightarrow>
     if \<not> (tnf < NDEF_NUMBER_OF_TNFS K) then Inl Invalid_ndef_tnf
     else
     (case parse_token_s ''NDEF type'' '' ,'' args2 False of
        Inl e \<Rightarrow> Inl e
      | Inr (type, args3) \<Rightarrow>
     (case parse_token_s ''NDEF id'' '' ,'' args3 True of
        Inl e \<Rightarrow> Inl e
      | Inr (ident, args4) \<Rightarrow>
     (case parse_token_s ''NDEF payload'' '']'' args4 False of
        Inl e \<Rightarrow> Inl e
      | Inr (payload, args5) \<Rightarrow>
          Inr (\<lparr> r_flags = flags, r_tnf = unat tnf, r_type = type, r_id = ident,
                 r_payload = payload \<rparr>, args5)))))))"

text \<open>The loop of \<open>parse_ndef_msg\<close>; the first argument counts the slots left
  (\<open>nrecs - i\<close>).\<close>

fun parse_ndef_recs ::
  "hdr_consts \<Rightarrow> nat \<Rightarrow> args \<Rightarrow> diag + (nfc_ndef_record_param list \<times> args)" where
  "parse_ndef_recs K 0 args = Inr ([], args)"
| "parse_ndef_recs K (Suc n) args =
     (if args = None \<or> args = Some [] then Inr ([], args)
      else (case parse_ndef_rec K args of
              Inl e \<Rightarrow> Inl e
            | Inr (rec, args') \<Rightarrow>
                (case parse_ndef_recs K n args' of
                   Inl e \<Rightarrow> Inl e
                 | Inr (recs, args'') \<Rightarrow> Inr (rec # recs, args''))))"

text \<open>\<open>parse_ndef_msg\<close> returns the records it stored; their number is its result
  \<open>i\<close>.\<close>

definition parse_ndef_msg ::
  "hdr_consts \<Rightarrow> args \<Rightarrow> nat \<Rightarrow> diag + nfc_ndef_record_param list" where
  "parse_ndef_msg K args nrecs =
     (case parse_ndef_recs K nrecs args of
        Inl e \<Rightarrow> Inl e
      | Inr (recs, args') \<Rightarrow>
          (case args' of
             None \<Rightarrow> Inr recs
           | Some s \<Rightarrow> if s \<noteq> [] then Inl (Invalid_eol s) else Inr recs))"

definition parse_re_index :: "args \<Rightarrow> ulong \<Rightarrow> diag + (ulong \<times> args)" where
  "parse_re_index args nres =
     (case parse_token_ul ''remote endpoint'' '' '' args of
        Inl e \<Rightarrow> Inl e
      | Inr (i, args') \<Rightarrow> if \<not> (i < nres) then Inl (Unknown_re i) else Inr (i, args'))"

definition parse_nci_ntf_type :: "hdr_consts \<Rightarrow> args \<Rightarrow> diag + (ulong \<times> args)" where
  "parse_nci_ntf_type K args =
     (case parse_token_ul ''discover notification type'' '' '' args of
        Inl e \<Rightarrow> Inl e
      | Inr (ntype, args') \<Rightarrow>
          if \<not> (ntype < NUMBER_OF_NCI_NOTIFICATION_TYPES K) then Inl (Unknown_ntf_type ntype)
          else Inr (ntype, args'))"

definition parse_rf_index :: "hdr_consts \<Rightarrow> args \<Rightarrow> diag + (int \<times> args)" where
  "parse_rf_index K args =
     (case parse_token_l ''rf index'' '' '' args of
        Inl e \<Rightarrow> Inl e
      | Inr (rf, args') \<Rightarrow>
          if rf < - 1 \<or> rf \<ge> NUMBER_OF_SUPPORTED_NCI_RF_INTERFACES K
          then Inl (Unknown_rf_index rf)
          else Inr (rf, args'))"

definition parse_nci_deactivate_ntf_type :: "hdr_consts \<Rightarrow> args \<Rightarrow> diag + (ulong \<times> args)" where
  "parse_nci_deactivate_ntf_type K args =
     (case parse_token_ul ''deactivate notification type'' '' '' args of
        Inl e \<Rightarrow> Inl e
      | Inr (dtype, args') \<Rightarrow>
          if \<not> (dtype < NUMBER_OF_NCI_RF_DEACT_TYPE K) then Inl (Unknown_deact_type dtype)
          else Inr (dtype, args'))"

definition parse_nci_deactivate_ntf_reason :: "hdr_consts \<Rightarrow> args \<Rightarrow> diag + (ulong \<times> args)" where
  "parse_nci_deactivate_ntf_reason K args =
     (case parse_token_ul ''deactivate notification reason'' '' '' args of
        Inl e \<Rightarrow> Inl e
      | Inr (dreason, args') \<Rightarrow>
          if \<not> (dreason < NUMBER_OF_NCI_RF_DEACT_REASON K) then Inl (Unknown_deact_reason dreason)
          else Inr (dreason, args'))"

section \<open>Parameters, the device and the host\<close>

record nfc_snep_param =
  snep_dsap :: int
  snep_ssap :: int
  snep_nrecords :: nat
  snep_record :: "nfc_ndef_record_param list"

record nfc_ntf_param =
  ntf_re :: "nat option"
  ntf_ntype :: ulong
  ntf_rf :: int
  ntf_dreason :: ulong
  ntf_dtype :: ulong

record nfc_llcp_param =
  llcp_dsap :: int
  llcp_ssap :: int

text \<open>A pointer to a remote endpoint is its index in the global table \<open>nfc_res\<close>; a
  pointer to an RF interface is its index in \<open>nfc->rf\<close>; \<open>None\<close> is NULL.\<close>

record nfc_re =
  last_dsap :: int
  last_ssap :: int
  rfproto :: nat
  mode :: nat
  tag :: "nat option"

record nfc_device =
  active_re :: "nat option"
  active_rf :: "int option"

record world =
  nfc_res :: "nat \<Rightarrow> nfc_re"
  nfc :: nfc_device

text \<open>A callback handed to \<open>cb.send_dta\<close>, \<open>cb.recv_dta\<close> or \<open>cb.send_ntf\<close>, with the
  parameter it is handed with.\<close>

datatype callback =
    Nfc_send_snep_put_cb nfc_snep_param
  | Nfc_recv_snep_put_cb nfc_snep_param
  | Nfc_llcp_connect_cb nfc_llcp_param
  | Nfc_rf_discovery_ntf_cb nfc_ntf_param
  | Nfc_rf_intf_activated_ntf_cb nfc_ntf_param
  | Nfc_rf_intf_deactivate_ntf_cb nfc_ntf_param

text \<open>What a dispatcher does besides returning: the messages it logs and the calls it
  makes, in order.\<close>

datatype event =
    Log_err diag
  | Send_dta callback
  | Recv_dta callback
  | Send_ntf callback
  | Tag_set_data "nat option" "byte list"
  | Tag_format "nat option"

text \<open>The calls a callback makes to the remote endpoint's functions.\<close>

datatype call =
    Send_snep_put nat int int
  | Recv_snep_put nat int int
  | Send_llcp_connect nat int int

text \<open>The functions of the host that cmdline.c calls and whose code is not among the
  sources: the sinks of the structure \<open>cb\<close> and the functions of nfc-tag.h, nfc-re.h
  and nfc.h. Each field gives the function's result for its arguments.\<close>

record host =
  send_dta :: "callback \<Rightarrow> int"
  recv_dta :: "callback \<Rightarrow> int"
  send_ntf :: "callback \<Rightarrow> int"
  nfc_tag_set_data :: "nat option \<Rightarrow> byte list \<Rightarrow> int"
  nfc_tag_format :: "nat option \<Rightarrow> int"
  nfc_re_send_snep_put :: "nat \<Rightarrow> int \<Rightarrow> int \<Rightarrow> int"
  nfc_re_recv_snep_put :: "nat \<Rightarrow> int \<Rightarrow> int \<Rightarrow> int"
  nfc_re_send_llcp_connect :: "nat \<Rightarrow> int \<Rightarrow> int \<Rightarrow> int"
  nfc_clear_re :: "nfc_re \<Rightarrow> nfc_re"
  nfc_find_rf_by_protocol_and_mode :: "nfc_device \<Rightarrow> nat \<Rightarrow> nat \<Rightarrow> int option"
  nfc_create_rf_intf_activated_ntf :: "nat \<Rightarrow> nfc_device \<Rightarrow> int"

section \<open>The callbacks\<close>

text \<open>A callback returns its result (\<open>Inl\<close> for \<^verbatim>\<open>-1\<close>, with the message logged), the
  parameter as it leaves it, and the calls it made.\<close>

definition nfc_send_snep_put_cb ::
  "host \<Rightarrow> world \<Rightarrow> nfc_snep_param \<Rightarrow> (diag + int) \<times> nfc_snep_param \<times> call list" where
  "nfc_send_snep_put_cb H W param =
     (case active_re (nfc W) of
        None \<Rightarrow> (Inl No_active_re, param, [])
      | Some re \<Rightarrow>
          let param' =
                (if snep_dsap param < 0 \<and> snep_ssap param < 0
                 then param\<lparr> snep_dsap := last_dsap (nfc_res W re),
                             snep_ssap := last_ssap (nfc_res W re) \<rparr>
                 else param);
              res = nfc_re_send_snep_put H re (snep_dsap param') (snep_ssap param')
          in (if res < 0 then Inl Snep_put_failed else Inr res, param',
              [Send_snep_put re (snep_dsap param') (snep_ssap param')]))"

definition nfc_recv_snep_put_cb ::
  "host \<Rightarrow> world \<Rightarrow> nfc_snep_param \<Rightarrow> (diag + int) \<times> nfc_snep_param \<times> call list" where
  "nfc_recv_snep_put_cb H W param =
     (case active_re (nfc W) of
        None \<Rightarrow> (Inl No_active_re, param, [])
      | Some re \<Rightarrow>
          let param' =
                (if snep_dsap param < 0 \<and> snep_ssap param < 0
                 then param\<lparr> snep_dsap := last_dsap (nfc_res W re),
                             snep_ssap := last_ssap (nfc_res W re) \<rparr>
                 else param);
              res = nfc_re_recv_snep_put H re (snep_dsap param') (snep_ssap param')
          in (if res < 0 then Inl Snep_put_failed else Inr 0, param',
              [Recv_snep_put re (snep_dsap param') (snep_ssap param')]))"

definition nfc_llcp_connect_cb ::
  "host \<Rightarrow> world \<Rightarrow> nfc_llcp_param \<Rightarrow> (diag + int) \<times> nfc_llcp_param \<times> call list" where
  "nfc_llcp_connect_cb H W param =
     (case active_re (nfc W) of
        None \<Rightarrow> (Inl No_active_re, param, [])
      | Some re \<Rightarrow>
          let param' =
                (if llcp_dsap param < 0 \<and> llcp_ssap param < 0
                 then param\<lparr> llcp_dsap := last_dsap (nfc_res W re),
                             llcp_ssap := last_ssap (nfc_res W re) \<rparr>
                 else param)
          in if llcp_dsap param' = 0 then (Inl Dsap_is_0, param', [])
             else if llcp_ssap param' = 0 then (Inl Ssap_is_0, param', [])
             else let res = nfc_re_send_llcp_connect H re (llcp_dsap param') (llcp_ssap param')
                  in (if res < 0 then Inl Llcp_connect_failed else Inr 0, param',
                      [Send_llcp_connect re (llcp_dsap param') (llcp_ssap param')]))"

text \<open>The end of \<open>nfc_rf_intf_activated_ntf_cb\<close>, from the call of
  \<open>nfc_create_rf_intf_activated_ntf\<close> on.\<close>

definition create_rf_intf_activated_ntf ::
  "host \<Rightarrow> world \<Rightarrow> nfc_ntf_param \<Rightarrow> nat \<Rightarrow> (diag + int) \<times> world \<times> nfc_ntf_param" where
  "create_rf_intf_activated_ntf H W param re =
     (let res = nfc_create_rf_intf_activated_ntf H re (nfc W)
      in (if res < 0 then Inl Rf_intf_activated_ntf_failed else Inr res, W, param))"

text \<open>\<open>nfc_rf_intf_activated_ntf_cb\<close> returns its result, the world as it leaves it and
  the parameter as it leaves it. \<open>W1\<close> is the world after \<^verbatim>\<open>nfc_clear_re(param->re)\<close>.\<close>

definition nfc_rf_intf_activated_ntf_cb ::
  "host \<Rightarrow> world \<Rightarrow> nfc_ntf_param \<Rightarrow> (diag + int) \<times> world \<times> nfc_ntf_param" where
  "nfc_rf_intf_activated_ntf_cb H W param =
     (case (case ntf_re param of None \<Rightarrow> active_re (nfc W) | Some r \<Rightarrow> Some r) of
        None \<Rightarrow> (Inl No_active_re, W, param)
      | Some re \<Rightarrow>
          let param' = param\<lparr> ntf_re := Some re \<rparr>;
              W1 = W\<lparr> nfc_res := (nfc_res W)(re := nfc_clear_re H (nfc_res W re)) \<rparr>
          in if active_rf (nfc W1) \<noteq> None then create_rf_intf_activated_ntf H W1 param' re
             else if ntf_rf param' = - 1 then
               (let W2 = W1\<lparr> nfc := (nfc W1)\<lparr> active_rf :=
                            nfc_find_rf_by_protocol_and_mode H (nfc W1)
                              (rfproto (nfc_res W1 re)) (mode (nfc_res W1 re)) \<rparr> \<rparr>
                in if active_rf (nfc W2) = None then (Inl No_active_rf, W2, param')
                   else create_rf_intf_activated_ntf H W2 param' re)
             else create_rf_intf_activated_ntf H
                    (W1\<lparr> nfc := (nfc W1)\<lparr> active_rf := Some (ntf_rf param') \<rparr> \<rparr>) param' re)"

section \<open>The command dispatchers\<close>

text \<open>A dispatcher returns the events it caused and its result. \<open>ko e\<close> is the failure
  with the message of \<open>e\<close> logged where it was raised.\<close>

definition ko :: "diag \<Rightarrow> event list \<times> int" where
  "ko e = (if e = Decode_failed then [] else [Log_err e], - 1)"

definition nfc_cmd_snep :: "host \<Rightarrow> hdr_consts \<Rightarrow> args \<Rightarrow> event list \<times> int" where
  "nfc_cmd_snep H K args =
     (if args = None then ko No_arguments
      else case strsep args '' '' of
        (None, args0) \<Rightarrow> ko No_operation
      | (Some p, args0) \<Rightarrow>
          if p = ''put'' then
            (case parse_sap K ''DSAP'' args0 True of
               Inl e \<Rightarrow> ko e
             | Inr (dsap, args1) \<Rightarrow>
            (case parse_sap K ''SSAP'' args1 True of
               Inl e \<Rightarrow> ko e
             | Inr (ssap, args2) \<Rightarrow>
            (case parse_ndef_msg K args2 4 of
               Inl e \<Rightarrow> ko e
             | Inr recs \<Rightarrow>
                 let param = \<lparr> snep_dsap = dsap, snep_ssap = ssap,
                               snep_nrecords = length recs, snep_record = recs \<rparr>
                 in if snep_nrecords param \<noteq> 0
                    then ([Send_dta (Nfc_send_snep_put_cb param)],
                          if send_dta H (Nfc_send_snep_put_cb param) < 0 then - 1 else 0)
                    else ([Recv_dta (Nfc_recv_snep_put_cb param)],
                          if recv_dta H (Nfc_recv_snep_put_cb param) < 0 then - 1 else 0))))
          else ko (Invalid_operation p))"

definition NFC_NTF_PARAM_INIT :: nfc_ntf_param where
  "NFC_NTF_PARAM_INIT =
     \<lparr> ntf_re = None, ntf_ntype = 0, ntf_rf = - 1, ntf_dreason = 0, ntf_dtype = 0 \<rparr>"

text \<open>\<^verbatim>\<open>if (cb.send_ntf(callback, &param) < 0) return -1;\<close> and the final
  \<^verbatim>\<open>return 0\<close>.\<close>

definition dispatch_ntf :: "host \<Rightarrow> callback \<Rightarrow> event list \<times> int" where
  "dispatch_ntf H c = ([Send_ntf c], if send_ntf H c < 0 then - 1 else 0)"

definition nfc_cmd_nci :: "host \<Rightarrow> hdr_consts \<Rightarrow> args \<Rightarrow> event list \<times> int" where
  "nfc_cmd_nci H K args =
     (if args = None then ko No_arguments
      else case strsep args '' '' of
        (None, args0) \<Rightarrow> ko No_operation
      | (Some p, args0) \<Rightarrow>
          if p = ''rf_discover_ntf'' then
            (case parse_re_index args0 (ARRAY_SIZE_nfc_res K) of
               Inl e \<Rightarrow> ko e
             | Inr (i, args1) \<Rightarrow>
            (case parse_nci_ntf_type K args1 of
               Inl e \<Rightarrow> ko e
             | Inr (ntype, args2) \<Rightarrow>
                 dispatch_ntf H (Nfc_rf_discovery_ntf_cb
                   (NFC_NTF_PARAM_INIT\<lparr> ntf_re := Some (unat i), ntf_ntype := ntype \<rparr>))))
          else if p = ''rf_intf_activated_ntf'' then
            (if args0 \<noteq> None \<and> args0 \<noteq> Some [] then
               (case parse_re_index args0 (ARRAY_SIZE_nfc_res K) of
                  Inl e \<Rightarrow> ko e
                | Inr (i, args1) \<Rightarrow>
                    if args1 \<noteq> None \<and> args1 \<noteq> Some [] then
                      (case parse_rf_index K args1 of
                         Inl e \<Rightarrow> ko e
                       | Inr (rf, args2) \<Rightarrow>
                           dispatch_ntf H (Nfc_rf_intf_activated_ntf_cb
                             (NFC_NTF_PARAM_INIT\<lparr> ntf_re := Some (unat i), ntf_rf := rf \<rparr>)))
                    else
                      dispatch_ntf H (Nfc_rf_intf_activated_ntf_cb
                        (NFC_NTF_PARAM_INIT\<lparr> ntf_re := Some (unat i), ntf_rf := - 1 \<rparr>)))
             else
               dispatch_ntf H (Nfc_rf_intf_activated_ntf_cb
                 (NFC_NTF_PARAM_INIT\<lparr> ntf_re := None, ntf_rf := - 1 \<rparr>)))
          else if p = ''rf_intf_deactivate_ntf'' then
            (if args0 \<noteq> None \<and> args0 \<noteq> Some [] then
               (case parse_nci_deactivate_ntf_type K args0 of
                  Inl e \<Rightarrow> ko e
                | Inr (dtype, args1) \<Rightarrow>
               (case parse_nci_deactivate_ntf_reason K args1 of
                  Inl e \<Rightarrow> ko e
                | Inr (dreason, args2) \<Rightarrow>
                    dispatch_ntf H (Nfc_rf_intf_deactivate_ntf_cb
                      (NFC_NTF_PARAM_INIT\<lparr> ntf_dtype := dtype, ntf_dreason := dreason \<rparr>))))
             else
               dispatch_ntf H (Nfc_rf_intf_deactivate_ntf_cb
                 (NFC_NTF_PARAM_INIT\<lparr> ntf_dtype := NCI_RF_DEACT_DISCOVERY K,
                                       ntf_dreason := NCI_RF_DEACT_RF_LINK_LOSS K \<rparr>)))
          else ko (Invalid_operation p))"

definition nfc_cmd_llcp :: "host \<Rightarrow> hdr_consts \<Rightarrow> args \<Rightarrow> event list \<times> int" where
  "nfc_cmd_llcp H K args =
     (if args = None then ko No_arguments
      else case strsep args '' '' of
        (None, args0) \<Rightarrow> ko No_operation
      | (Some p, args0) \<Rightarrow>
          if p = ''connect'' then
            (case parse_sap K ''DSAP'' args0 True of
               Inl e \<Rightarrow> ko e
             | Inr (dsap, args1) \<Rightarrow>
            (case parse_sap K ''SSAP'' args1 True of
               Inl e \<Rightarrow> ko e
             | Inr (ssap, args2) \<Rightarrow>
                 let param = \<lparr> llcp_dsap = dsap, llcp_ssap = ssap \<rparr>
                 in ([Send_dta (Nfc_llcp_connect_cb param)],
                     if send_dta H (Nfc_llcp_connect_cb param) < 0 then - 1 else 0)))
          else ko (Invalid_operation p))"

text \<open>\<open>nfc_cmd_tag\<close> reads the global table \<open>nfc_res\<close>, here \<open>nfc_res W\<close>.\<close>

definition nfc_cmd_tag :: "host \<Rightarrow> hdr_consts \<Rightarrow> world \<Rightarrow> args \<Rightarrow> event list \<times> int" where
  "nfc_cmd_tag H K W args =
     (if args = None then ko No_arguments
      else case strsep args '' '' of
        (None, args0) \<Rightarrow> ko No_operation
      | (Some p, args0) \<Rightarrow>
          if p = ''set'' then
            (case parse_re_index args0 (ARRAY_SIZE_nfc_res K) of
               Inl e \<Rightarrow> ko e
             | Inr (i, args1) \<Rightarrow>
                 let re = nfc_res W (unat i)
                 in if tag re = None then ko Not_a_tag
                    else
                 (case parse_ndef_msg K args1 4 of
                    Inl e \<Rightarrow> ko e
                  | Inr recs \<Rightarrow>
                 (case build_ndef_msg recs (MAXIMUM_SUPPORTED_TAG_SIZE K) of
                    Inl e \<Rightarrow> ko e
                  | Inr buf \<Rightarrow>
                      ([Tag_set_data (tag re) buf],
                       if nfc_tag_set_data H (tag re) buf < 0 then - 1 else 0))))
          else if p = ''clear'' then
            (case parse_re_index args0 (ARRAY_SIZE_nfc_res K) of
               Inl e \<Rightarrow> ko e
             | Inr (i, args1) \<Rightarrow>
                 let re = nfc_res W (unat i)
                 in ([Tag_set_data (tag re) []],
                     if nfc_tag_set_data H (tag re) [] < 0 then - 1 else 0))
          else if p = ''format'' then
            (case parse_re_index args0 (ARRAY_SIZE_nfc_res K) of
               Inl e \<Rightarrow> ko e
             | Inr (i, args1) \<Rightarrow>
                 let re = nfc_res W (unat i)
                 in ([Tag_format (tag re)],
                     if nfc_tag_format H (tag re) < 0 then - 1 else 0))
          else ([], 0))"

section \<open>A host and constants to run the functions on\<close>

text \<open>Modelled from the spec: values for the constants of the missing headers, used
  where a function is run on a concrete input. A SAP is a number below 64; the flags a
  caller may give are CF and SR, the spec's mask that keeps the derived bits MB, ME and
  IL out; a TNF is a number below 7.\<close>

definition K0 :: hdr_consts where
  "K0 = \<lparr> LLCP_NUMBER_OF_SAPS = 64, NDEF_FLAG_BITS = 0x30, NDEF_NUMBER_OF_TNFS = 7,
          NUMBER_OF_NCI_NOTIFICATION_TYPES = 4, NUMBER_OF_SUPPORTED_NCI_RF_INTERFACES = 2,
          NUMBER_OF_NCI_RF_DEACT_TYPE = 4, NUMBER_OF_NCI_RF_DEACT_REASON = 3,
          NCI_RF_DEACT_DISCOVERY = 3, NCI_RF_DEACT_RF_LINK_LOSS = 2,
          MAXIMUM_SUPPORTED_TAG_SIZE = 1024, ARRAY_SIZE_nfc_res = 2 \<rparr>"

text \<open>Modelled from the spec: a host whose sinks and endpoint functions succeed, whose
  \<open>nfc_clear_re\<close> clears the endpoint's negotiated SAPs, and whose RF interface table
  holds no interface that matches any protocol and mode.\<close>

definition H0 :: host where
  "H0 = \<lparr> send_dta = (\<lambda>c. 0), recv_dta = (\<lambda>c. 0), send_ntf = (\<lambda>c. 0),
          nfc_tag_set_data = (\<lambda>t b. 0), nfc_tag_format = (\<lambda>t. 0),
          nfc_re_send_snep_put = (\<lambda>re d s. 0), nfc_re_recv_snep_put = (\<lambda>re d s. 0),
          nfc_re_send_llcp_connect = (\<lambda>re d s. 0),
          nfc_clear_re = (\<lambda>re. re\<lparr> last_dsap := 0, last_ssap := 0 \<rparr>),
          nfc_find_rf_by_protocol_and_mode = (\<lambda>dev proto md. None),
          nfc_create_rf_intf_activated_ntf = (\<lambda>re dev. 0) \<rparr>"

definition re0 :: nfc_re where
  "re0 = \<lparr> last_dsap = 16, last_ssap = 17, rfproto = 0, mode = 0, tag = Some 0 \<rparr>"

text \<open>A world whose endpoint 0 is active, with no active RF interface.\<close>

definition W0 :: world where
  "W0 = \<lparr> nfc_res = (\<lambda>i. re0), nfc = \<lparr> active_re = Some 0, active_rf = None \<rparr> \<rparr>"

text \<open>The record of the spec's example \<^verbatim>\<open>[0,1,QUJD,,REVG]\<close> with flags \<open>f\<close>.\<close>

definition rec0 :: "ulong \<Rightarrow> nfc_ndef_record_param" where
  "rec0 f = \<lparr> r_flags = f, r_tnf = 1, r_type = ''QUJD'', r_id = [], r_payload = ''REVG'' \<rparr>"

section \<open>What a built message is expected to hold\<close>

text \<open>The bytes a base64url text stands for (none where it is not base64url).\<close>

definition field_bytes :: "string \<Rightarrow> byte list" where
  "field_bytes txt = (case b64_decode txt of Some bs \<Rightarrow> bs | None \<Rightarrow> [])"

text \<open>A record on the wire: the header for the flags \<open>f\<close>, the TNF and the lengths of
  the fields (each cut to the width of its header field), then type \<open>t\<close>, id \<open>d\<close> and
  payload \<open>p\<close>.\<close>

definition ndef_image :: "byte \<Rightarrow> nat \<Rightarrow> byte list \<Rightarrow> byte list \<Rightarrow> byte list \<Rightarrow> byte list" where
  "ndef_image f tnf t d p =
     [(f AND NOT NDEF_TNF_BITS) OR (word_of_nat tnf AND NDEF_TNF_BITS), word_of_nat (length t)]
     @ (if f AND NDEF_FLAG_SR \<noteq> 0 then [word_of_nat (length p)]
        else [word_of_nat (length p div 2 ^ 24), word_of_nat (length p div 2 ^ 16),
              word_of_nat (length p div 2 ^ 8), word_of_nat (length p)])
     @ (if f AND NDEF_FLAG_IL \<noteq> 0 then [word_of_nat (length d)] else [])
     @ t @ d @ p"

text \<open>The image of record \<open>i\<close> of \<open>nrecords\<close>: its id is on the wire only when IL is
  among its flags.\<close>

definition rec_image :: "nat \<Rightarrow> nat \<Rightarrow> nfc_ndef_record_param \<Rightarrow> byte list" where
  "rec_image i nrecords record =
     ndef_image (rec_flags i nrecords record) (r_tnf record)
       (field_bytes (r_type record))
       (if rec_flags i nrecords record AND NDEF_FLAG_IL \<noteq> 0 then field_bytes (r_id record) else [])
       (field_bytes (r_payload record))"

fun rec_images :: "nat \<Rightarrow> nat \<Rightarrow> nfc_ndef_record_param list \<Rightarrow> byte list list" where
  "rec_images nrecords i [] = []"
| "rec_images nrecords i (record # rest) =
     rec_image i nrecords record # rec_images nrecords (i + 1) rest"

text \<open>The entry the report is expected to show for a record: its TNF and the base64url
  text of the bytes its three fields stand for.\<close>

definition entry_of :: "nfc_ndef_record_param \<Rightarrow> ndef_entry" where
  "entry_of record =
     \<lparr> e_tnf = word_of_nat (r_tnf record) AND NDEF_TNF_BITS,
       e_type = Some (b64_encode (field_bytes (r_type record))),
       e_id = Some (b64_encode (field_bytes (r_id record))),
       e_payload = Some (b64_encode (field_bytes (r_payload record))) \<rparr>"

text \<open>A record whose payload is the 516 characters \<^verbatim>\<open>AAA...\<close>, 387 bytes once
  decoded.\<close>

definition rec_long :: nfc_ndef_record_param where
  "rec_long = \<lparr> r_flags = 0, r_tnf = 1, r_type = ''QUJD'', r_id = [],
                r_payload = replicate 516 (CHR ''A'') \<rparr>"

text \<open>The fields of a record fit the reporter and the header when type and id decode
  to at most 255 bytes each (their length fields hold one byte) and the payload to at
  most 384 bytes (the base64url text of more does not fit the reporter's 512
  characters).\<close>

definition fits :: "nfc_ndef_record_param \<Rightarrow> bool" where
  "fits r \<longleftrightarrow> length (field_bytes (r_type r)) \<le> 255 \<and> length (field_bytes (r_id r)) \<le> 255
            \<and> length (field_bytes (r_payload r)) \<le> 384"

text \<open>A short record with an id.\<close>

definition rec1 :: nfc_ndef_record_param where
  "rec1 = \<lparr> r_flags = 16, r_tnf = 2, r_type = ''QQ'', r_id = ''QUI'', r_payload = ''REVG'' \<rparr>"

section \<open>The lexer: SAP values\<close>

lemmas lex_defs = parse_token_l_def parse_token_ul_def parse_token_s_def lex_token_def
  strtol_def strtoul_def strto_parts_def isspace_def is_digit_def digit_of_def Let_def

lemma parse_sap_token_error:
  "parse_token_l field '' '' args = Inl e \<Longrightarrow> parse_sap K field args can_autodetect = Inl e"
  by (simp add: parse_sap_def)

lemma parse_token_l_minus_one:
  "parse_token_l ''DSAP'' '' '' (Some ''-1 5'') = Inr (- 1, Some ''5'')"
  by (simp add: lex_defs)

text \<open>Claim C4. Once the token is read and converted, \<open>parse_sap\<close> accepts the value
  exactly when it lies in the range from \<open>-1\<close> up to, and not including,
  \<open>LLCP_NUMBER_OF_SAPS\<close>, and \<open>-1\<close> only for a field the caller marked as one it can
  detect; every other value is rejected with the message "invalid <field>".\<close>

theorem parse_sap_range:
  assumes "parse_token_l field '' '' args = Inr (sap, args')"
  shows "parse_sap K field args can_autodetect =
           (if - 1 \<le> sap \<and> sap < LLCP_NUMBER_OF_SAPS K \<and> (can_autodetect \<or> sap \<noteq> - 1)
            then Inr (sap, args') else Inl (Invalid_sap field sap))"
  using assms by (auto simp: parse_sap_def)

theorem parse_sap_range_witness:
  "parse_sap K0 ''DSAP'' (Some ''-1 5'') True = Inr (- 1, Some ''5'')
   \<and> parse_sap K0 ''DSAP'' (Some ''-1 5'') False = Inl (Invalid_sap ''DSAP'' (- 1))"
  using parse_sap_range [OF parse_token_l_minus_one, of K0 True]
        parse_sap_range [OF parse_token_l_minus_one, of K0 False]
  by (simp add: K0_def)

section \<open>The callbacks: SAP resolution\<close>

text \<open>Claim C6. With an active remote endpoint, \<open>nfc_llcp_connect_cb\<close> replaces the two
  SAPs by the endpoint's last ones when both are negative; it then fails with "DSAP is 0"
  or "SSAP is 0", calling nothing, when one of the two is 0, whether given or read from
  the endpoint; it calls \<open>nfc_re_send_llcp_connect\<close> exactly when both are not 0.\<close>

theorem llcp_connect_zero_sap:
  assumes "active_re (nfc W) = Some re"
    and "nfc_llcp_connect_cb H W param = (res, param', calls)"
  shows "llcp_dsap param' = (if llcp_dsap param < 0 \<and> llcp_ssap param < 0
                             then last_dsap (nfc_res W re) else llcp_dsap param)
       \<and> llcp_ssap param' = (if llcp_dsap param < 0 \<and> llcp_ssap param < 0
                             then last_ssap (nfc_res W re) else llcp_ssap param)
       \<and> (llcp_dsap param' = 0 \<longrightarrow> res = Inl Dsap_is_0 \<and> calls = [])
       \<and> (llcp_dsap param' \<noteq> 0 \<and> llcp_ssap param' = 0 \<longrightarrow> res = Inl Ssap_is_0 \<and> calls = [])
       \<and> (calls \<noteq> [] \<longleftrightarrow> llcp_dsap param' \<noteq> 0 \<and> llcp_ssap param' \<noteq> 0)
       \<and> (llcp_dsap param' \<noteq> 0 \<and> llcp_ssap param' \<noteq> 0 \<longrightarrow>
            calls = [Send_llcp_connect re (llcp_dsap param') (llcp_ssap param')])"
  using assms by (auto simp: nfc_llcp_connect_cb_def Let_def split: if_splits)

lemma active_re_W0: "active_re (nfc W0) = Some 0"
  by (simp add: W0_def)

lemma llcp_connect_explicit_zero:
  "nfc_llcp_connect_cb H0 W0 \<lparr> llcp_dsap = 0, llcp_ssap = 4 \<rparr>
   = (Inl Dsap_is_0, \<lparr> llcp_dsap = 0, llcp_ssap = 4 \<rparr>, [])"
  by (simp add: nfc_llcp_connect_cb_def W0_def)

lemma llcp_connect_auto:
  "nfc_llcp_connect_cb H0 W0 \<lparr> llcp_dsap = - 1, llcp_ssap = - 1 \<rparr>
   = (Inr 0, \<lparr> llcp_dsap = 16, llcp_ssap = 17 \<rparr>, [Send_llcp_connect 0 16 17])"
  by (simp add: nfc_llcp_connect_cb_def W0_def H0_def re0_def)

theorem llcp_connect_zero_sap_witness:
  "nfc_llcp_connect_cb H0 W0 \<lparr> llcp_dsap = 0, llcp_ssap = 4 \<rparr>
     = (Inl Dsap_is_0, \<lparr> llcp_dsap = 0, llcp_ssap = 4 \<rparr>, [])
   \<and> nfc_llcp_connect_cb H0 W0 \<lparr> llcp_dsap = - 1, llcp_ssap = - 1 \<rparr>
     = (Inr 0, \<lparr> llcp_dsap = 16, llcp_ssap = 17 \<rparr>, [Send_llcp_connect 0 16 17])"
  using llcp_connect_zero_sap [OF active_re_W0 llcp_connect_explicit_zero]
        llcp_connect_zero_sap [OF active_re_W0 llcp_connect_auto]
        llcp_connect_explicit_zero llcp_connect_auto
  by simp

text \<open>Claim C9, as stated, fails: \<^verbatim>\<open>snep put -1 4\<close> hands \<open>-1\<close> on as the DSAP, although
  the active endpoint's last DSAP is 16.\<close>

theorem snep_put_single_auto_sap_counterexample:
  "nfc_send_snep_put_cb H0 W0
     \<lparr> snep_dsap = - 1, snep_ssap = 4, snep_nrecords = 1, snep_record = [rec0 0] \<rparr>
   = (Inr 0, \<lparr> snep_dsap = - 1, snep_ssap = 4, snep_nrecords = 1, snep_record = [rec0 0] \<rparr>,
      [Send_snep_put 0 (- 1) 4])
   \<and> last_dsap (nfc_res W0 0) = 16"
  by (simp add: nfc_send_snep_put_cb_def H0_def W0_def re0_def)

text \<open>Claim C9, amended. Both callbacks of \<^verbatim>\<open>snep put\<close> fail with "no active remote
  endpoint", calling nothing, when no endpoint is active. With an active endpoint they
  replace the two SAPs by the endpoint's last DSAP and SSAP when both are negative, and
  leave both as given otherwise (a single \<open>-1\<close> is handed on as it is); the SAPs that
  result are the ones handed to \<open>nfc_re_send_snep_put\<close> and \<open>nfc_re_recv_snep_put\<close>.\<close>

theorem snep_put_sap_resolution:
  "(active_re (nfc W) = None \<longrightarrow>
      nfc_send_snep_put_cb H W param = (Inl No_active_re, param, [])
      \<and> nfc_recv_snep_put_cb H W param = (Inl No_active_re, param, []))
   \<and> (active_re (nfc W) = Some re \<longrightarrow>
      (let d = (if snep_dsap param < 0 \<and> snep_ssap param < 0
                then last_dsap (nfc_res W re) else snep_dsap param);
           s = (if snep_dsap param < 0 \<and> snep_ssap param < 0
                then last_ssap (nfc_res W re) else snep_ssap param)
       in snd (nfc_send_snep_put_cb H W param)
            = (param\<lparr> snep_dsap := d, snep_ssap := s \<rparr>, [Send_snep_put re d s])
          \<and> snd (nfc_recv_snep_put_cb H W param)
            = (param\<lparr> snep_dsap := d, snep_ssap := s \<rparr>, [Recv_snep_put re d s])))"
  by (auto simp: nfc_send_snep_put_cb_def nfc_recv_snep_put_cb_def Let_def)

theorem snep_put_sap_resolution_witness:
  "snd (nfc_send_snep_put_cb H0 W0
          \<lparr> snep_dsap = - 1, snep_ssap = - 1, snep_nrecords = 1, snep_record = [rec0 0] \<rparr>)
     = (\<lparr> snep_dsap = 16, snep_ssap = 17, snep_nrecords = 1, snep_record = [rec0 0] \<rparr>,
        [Send_snep_put 0 16 17])
   \<and> nfc_recv_snep_put_cb H0 (W0\<lparr> nfc := \<lparr> active_re = None, active_rf = None \<rparr> \<rparr>)
        \<lparr> snep_dsap = - 1, snep_ssap = - 1, snep_nrecords = 0, snep_record = [] \<rparr>
     = (Inl No_active_re,
        \<lparr> snep_dsap = - 1, snep_ssap = - 1, snep_nrecords = 0, snep_record = [] \<rparr>, [])"
  using snep_put_sap_resolution [of W0 H0
          "\<lparr> snep_dsap = - 1, snep_ssap = - 1, snep_nrecords = 1, snep_record = [rec0 0] \<rparr>" 0]
        snep_put_sap_resolution [of "W0\<lparr> nfc := \<lparr> active_re = None, active_rf = None \<rparr> \<rparr>" H0
          "\<lparr> snep_dsap = - 1, snep_ssap = - 1, snep_nrecords = 0, snep_record = [] \<rparr>" 0]
  by (simp add: W0_def re0_def Let_def)

section \<open>The interface-activated notification\<close>

text \<open>Claim C7, as stated, fails: with no RF interface that matches, the callback fails
  after it has cleared the endpoint (here its last DSAP, 16 before, is 0 after).\<close>

theorem rf_intf_activated_clears_before_failing_counterexample:
  "fst (nfc_rf_intf_activated_ntf_cb H0 W0 NFC_NTF_PARAM_INIT) = Inl No_active_rf
   \<and> last_dsap (nfc_res W0 0) = 16
   \<and> last_dsap (nfc_res (fst (snd (nfc_rf_intf_activated_ntf_cb H0 W0 NFC_NTF_PARAM_INIT))) 0) = 0"
  by (simp add: nfc_rf_intf_activated_ntf_cb_def H0_def W0_def re0_def NFC_NTF_PARAM_INIT_def
                Let_def)

text \<open>Claim C7, amended. When no RF interface is active, the interface is to be selected
  (\<open>-1\<close>) and \<open>nfc_find_rf_by_protocol_and_mode\<close> finds none for the endpoint, the callback
  fails with "no active rf interface"; the device is as before, so no RF interface is
  active, and so is every endpoint but the target, which \<open>nfc_clear_re\<close> has cleared
  before the selection.\<close>

theorem rf_intf_activated_no_match:
  assumes "(case ntf_re param of None \<Rightarrow> active_re (nfc W) | Some r \<Rightarrow> Some r) = Some re"
    and "active_rf (nfc W) = None"
    and "ntf_rf param = - 1"
    and "nfc_find_rf_by_protocol_and_mode H (nfc W)
           (rfproto (nfc_clear_re H (nfc_res W re))) (mode (nfc_clear_re H (nfc_res W re))) = None"
  shows "nfc_rf_intf_activated_ntf_cb H W param
         = (Inl No_active_rf,
            W\<lparr> nfc_res := (nfc_res W)(re := nfc_clear_re H (nfc_res W re)) \<rparr>,
            param\<lparr> ntf_re := Some re \<rparr>)"
  using assms by (simp add: nfc_rf_intf_activated_ntf_cb_def Let_def)

theorem rf_intf_activated_no_match_witness:
  "nfc_rf_intf_activated_ntf_cb H0 W0 NFC_NTF_PARAM_INIT
   = (Inl No_active_rf,
      W0\<lparr> nfc_res := (nfc_res W0)(0 := nfc_clear_re H0 (nfc_res W0 0)) \<rparr>,
      NFC_NTF_PARAM_INIT\<lparr> ntf_re := Some 0 \<rparr>)"
  by (rule rf_intf_activated_no_match) (simp_all add: H0_def W0_def NFC_NTF_PARAM_INIT_def)

section \<open>The dispatchers\<close>

lemma parse_ndef_recs_length:
  "parse_ndef_recs K n args = Inr (recs, args') \<Longrightarrow> length recs \<le> n"
  by (induction n arbitrary: args recs args') (auto split: if_splits sum.splits prod.splits)

lemma parse_ndef_recs_end:
  "args = None \<or> args = Some [] \<Longrightarrow> parse_ndef_recs K n args = Inr ([], args)"
  by (cases n) auto

lemma parse_ndef_recs_step:
  "parse_ndef_rec K (Some (c # s)) = Inr (r, a) \<Longrightarrow> parse_ndef_recs K n a = Inr (rs, a')
   \<Longrightarrow> parse_ndef_recs K (Suc n) (Some (c # s)) = Inr (r # rs, a')"
  by simp

lemma parse_ndef_rec_example:
  "parse_ndef_rec K0 (Some ''[0,1,QUJD,,REVG]'') = Inr (rec0 0, Some [])"
  by (simp add: parse_ndef_rec_def lex_defs K0_def rec0_def)

lemma parse_ndef_msg_example:
  "parse_ndef_msg K0 (Some ''[0,1,QUJD,,REVG]'') 4 = Inr [rec0 0]"
proof -
  have "parse_ndef_recs K0 (Suc 3) (Some ''[0,1,QUJD,,REVG]'') = Inr ([rec0 0], Some [])"
    by (rule parse_ndef_recs_step [OF parse_ndef_rec_example]) (simp add: parse_ndef_recs_end)
  then show ?thesis by (simp add: parse_ndef_msg_def del: parse_ndef_recs.simps)
qed

lemma strsep_put_example:
  "strsep (Some ''put -1 -1 [0,1,QUJD,,REVG]'') '' ''
   = (Some ''put'', Some ''-1 -1 [0,1,QUJD,,REVG]'')"
  by simp

lemma parse_dsap_example:
  "parse_sap K0 ''DSAP'' (Some ''-1 -1 [0,1,QUJD,,REVG]'') True
   = Inr (- 1, Some ''-1 [0,1,QUJD,,REVG]'')"
  by (simp add: parse_sap_def lex_defs K0_def)

lemma parse_ssap_example:
  "parse_sap K0 ''SSAP'' (Some ''-1 [0,1,QUJD,,REVG]'') True = Inr (- 1, Some ''[0,1,QUJD,,REVG]'')"
  by (simp add: parse_sap_def lex_defs K0_def)

text \<open>Claim C5. When the line after \<^verbatim>\<open>snep\<close> starts with \<^verbatim>\<open>put\<close> and the two SAPs and
  the records parse, \<open>nfc_cmd_snep\<close> causes exactly one event: \<open>cb.recv_dta\<close> with
  \<open>nfc_recv_snep_put_cb\<close> when no record was parsed, \<open>cb.send_dta\<close> with
  \<open>nfc_send_snep_put_cb\<close> when one to four were; its result is that of the sink.\<close>

theorem snep_put_dispatch:
  assumes "strsep (Some s) '' '' = (Some ''put'', args0)"
    and "parse_sap K ''DSAP'' args0 True = Inr (dsap, args1)"
    and "parse_sap K ''SSAP'' args1 True = Inr (ssap, args2)"
    and "parse_ndef_msg K args2 4 = Inr recs"
  shows "length recs \<le> 4
       \<and> nfc_cmd_snep H K (Some s) =
          (let param = \<lparr> snep_dsap = dsap, snep_ssap = ssap,
                         snep_nrecords = length recs, snep_record = recs \<rparr>
           in if recs = []
              then ([Recv_dta (Nfc_recv_snep_put_cb param)],
                    if recv_dta H (Nfc_recv_snep_put_cb param) < 0 then - 1 else 0)
              else ([Send_dta (Nfc_send_snep_put_cb param)],
                    if send_dta H (Nfc_send_snep_put_cb param) < 0 then - 1 else 0))"
proof -
  have "length recs \<le> 4"
    using assms(4) parse_ndef_recs_length [of K 4 args2]
    by (auto simp: parse_ndef_msg_def split: sum.splits prod.splits option.splits if_splits)
  moreover have "nfc_cmd_snep H K (Some s) =
          (let param = \<lparr> snep_dsap = dsap, snep_ssap = ssap,
                         snep_nrecords = length recs, snep_record = recs \<rparr>
           in if recs = []
              then ([Recv_dta (Nfc_recv_snep_put_cb param)],
                    if recv_dta H (Nfc_recv_snep_put_cb param) < 0 then - 1 else 0)
              else ([Send_dta (Nfc_send_snep_put_cb param)],
                    if send_dta H (Nfc_send_snep_put_cb param) < 0 then - 1 else 0))"
    using assms by (simp add: nfc_cmd_snep_def Let_def del: strsep.simps)
  ultimately show ?thesis by simp
qed

theorem snep_put_dispatch_witness:
  "nfc_cmd_snep H0 K0 (Some ''put -1 -1 [0,1,QUJD,,REVG]'') =
     ([Send_dta (Nfc_send_snep_put_cb
         \<lparr> snep_dsap = - 1, snep_ssap = - 1, snep_nrecords = 1, snep_record = [rec0 0] \<rparr>)], 0)"
  using snep_put_dispatch [OF strsep_put_example parse_dsap_example parse_ssap_example
          parse_ndef_msg_example, of H0]
  by (simp add: H0_def)

lemma strsep_erase_example: "fst (strsep (Some ''erase 0'') '' '') = Some ''erase''"
  by simp

text \<open>Claim C10. For an operation \<open>p\<close> that is none of \<^verbatim>\<open>set\<close>, \<^verbatim>\<open>clear\<close> and
  \<^verbatim>\<open>format\<close>, \<open>nfc_cmd_tag\<close> returns 0 and causes no event: it logs nothing and calls
  nothing. \<open>nfc_cmd_snep\<close>, \<open>nfc_cmd_nci\<close> and \<open>nfc_cmd_llcp\<close> log "invalid operation" and
  return \<open>-1\<close> for an operation that is none of theirs.\<close>

theorem tag_unknown_operation_succeeds:
  assumes "fst (strsep (Some s) '' '') = Some p"
  shows "(p \<noteq> ''set'' \<and> p \<noteq> ''clear'' \<and> p \<noteq> ''format'' \<longrightarrow> nfc_cmd_tag H K W (Some s) = ([], 0))
       \<and> (p \<noteq> ''put'' \<longrightarrow> nfc_cmd_snep H K (Some s) = ([Log_err (Invalid_operation p)], - 1))
       \<and> (p \<noteq> ''rf_discover_ntf'' \<and> p \<noteq> ''rf_intf_activated_ntf''
            \<and> p \<noteq> ''rf_intf_deactivate_ntf''
            \<longrightarrow> nfc_cmd_nci H K (Some s) = ([Log_err (Invalid_operation p)], - 1))
       \<and> (p \<noteq> ''connect'' \<longrightarrow> nfc_cmd_llcp H K (Some s) = ([Log_err (Invalid_operation p)], - 1))"
proof -
  obtain a where sp: "strsep (Some s) '' '' = (Some p, a)"
    using assms by (cases "strsep (Some s) '' ''") simp
  show ?thesis
    by (simp add: nfc_cmd_tag_def nfc_cmd_snep_def nfc_cmd_nci_def nfc_cmd_llcp_def sp ko_def
             del: strsep.simps)
qed

theorem tag_unknown_operation_succeeds_witness:
  "nfc_cmd_tag H0 K0 W0 (Some ''erase 0'') = ([], 0)
   \<and> nfc_cmd_snep H0 K0 (Some ''erase 0'') = ([Log_err (Invalid_operation ''erase'')], - 1)
   \<and> nfc_cmd_nci H0 K0 (Some ''erase 0'') = ([Log_err (Invalid_operation ''erase'')], - 1)
   \<and> nfc_cmd_llcp H0 K0 (Some ''erase 0'') = ([Log_err (Invalid_operation ''erase'')], - 1)"
  using tag_unknown_operation_succeeds [OF strsep_erase_example, of H0 K0 W0] by simp

section \<open>The builder: what it stores\<close>

lemma hdr_byte_flag:
  "(c::byte) AND m = 0 \<Longrightarrow> ((f AND NOT m) OR (t AND m)) AND c = f AND c"
  by (auto simp: bit_eq_iff bit_and_iff bit_or_iff bit_not_iff)

lemma hdr_sr:
  "((f AND NOT NDEF_TNF_BITS) OR (t AND NDEF_TNF_BITS)) AND NDEF_FLAG_SR = f AND NDEF_FLAG_SR"
  by (rule hdr_byte_flag) (simp add: NDEF_FLAG_SR_def NDEF_TNF_BITS_def)

lemma hdr_il:
  "((f AND NOT NDEF_TNF_BITS) OR (t AND NDEF_TNF_BITS)) AND NDEF_FLAG_IL = f AND NDEF_FLAG_IL"
  by (rule hdr_byte_flag) (simp add: NDEF_FLAG_IL_def NDEF_TNF_BITS_def)

lemma hdr_mb:
  "((f AND NOT NDEF_TNF_BITS) OR (t AND NDEF_TNF_BITS)) AND NDEF_FLAG_MB = f AND NDEF_FLAG_MB"
  by (rule hdr_byte_flag) (simp add: NDEF_FLAG_MB_def NDEF_TNF_BITS_def)

lemma hdr_me:
  "((f AND NOT NDEF_TNF_BITS) OR (t AND NDEF_TNF_BITS)) AND NDEF_FLAG_ME = f AND NDEF_FLAG_ME"
  by (rule hdr_byte_flag) (simp add: NDEF_FLAG_ME_def NDEF_TNF_BITS_def)

lemma decode_base64_Some:
  "decode_base64 txt cap = Some bs \<longleftrightarrow> b64_decode txt = Some bs \<and> length bs \<le> cap"
  by (auto simp: decode_base64_def split: option.splits)

lemma field_bytes_Some: "b64_decode txt = Some bs \<Longrightarrow> field_bytes txt = bs"
  by (simp add: field_bytes_def)

text \<open>A turn of the loop that succeeds has stored the image of its record behind what
  was there.\<close>

lemma build_ndef_rec_image:
  assumes "build_ndef_rec len n i mem r = Inr mem'"
  shows "mem' = mem @ rec_image i n r"
  using assms
  apply (simp add: build_ndef_rec_def Let_def rec_image_def ndef_image_def ndef_create_rec_def
         ndef_rec_set_type_len_def ndef_rec_set_id_len_def ndef_rec_set_payload_len_def
         decode_base64_Some hdr_sr hdr_il list_update_append nth_append
       split: option.splits if_splits sum.splits)
       apply (auto simp: field_bytes_Some)
  done

lemma build_ndef_loop_images:
  "build_ndef_loop len n i mem recs = Inr mem' \<Longrightarrow> mem' = mem @ concat (rec_images n i recs)"
proof (induction recs arbitrary: i mem)
  case Nil
  then show ?case by simp
next
  case (Cons r recs)
  from Cons.prems obtain mem1 where
    r: "build_ndef_rec len n i mem r = Inr mem1" and
    rest: "build_ndef_loop len n (i + 1) mem1 recs = Inr mem'"
    by (auto split: sum.splits)
  from build_ndef_rec_image [OF r] Cons.IH [OF rest] show ?case by simp
qed

lemma rec_images_length: "length (rec_images n i recs) = length recs"
  by (induction recs arbitrary: i) auto

lemma rec_images_nth:
  "k < length recs \<Longrightarrow> rec_images n i recs ! k = rec_image (i + k) n (recs ! k)"
proof (induction recs arbitrary: i k)
  case Nil
  then show ?case by simp
next
  case (Cons r recs)
  then show ?case by (cases k) auto
qed

lemma hd_rec_image:
  "hd (rec_image i n r) =
     (rec_flags i n r AND NOT NDEF_TNF_BITS) OR (word_of_nat (r_tnf r) AND NDEF_TNF_BITS)"
  by (simp add: rec_image_def ndef_image_def)

lemma rec_flags_mb: "rec_flags 0 n r AND NDEF_FLAG_MB = NDEF_FLAG_MB"
  by (simp add: rec_flags_def bit.conj_disj_distrib2 NDEF_FLAG_MB_def NDEF_FLAG_ME_def
                NDEF_FLAG_IL_def)

lemma rec_flags_me: "i + 1 = n \<Longrightarrow> rec_flags i n r AND NDEF_FLAG_ME = NDEF_FLAG_ME"
  by (simp add: rec_flags_def bit.conj_disj_distrib2 NDEF_FLAG_MB_def NDEF_FLAG_ME_def
                NDEF_FLAG_IL_def)

lemma rec_flags_il:
  "rec_flags i n r AND NDEF_FLAG_IL \<noteq> 0
   \<longleftrightarrow> (ucast (r_flags r) :: byte) AND NDEF_FLAG_IL \<noteq> 0 \<or> r_id r \<noteq> []"
  by (simp add: rec_flags_def bit.conj_disj_distrib2 or_eq_0_iff NDEF_FLAG_MB_def
                NDEF_FLAG_ME_def NDEF_FLAG_IL_def)

lemmas build_defs = build_ndef_msg_def build_ndef_rec_def rec_flags_def ndef_create_rec_def
  decode_base64_def b64_value_def size_sub_def ndef_rec_set_type_len_def ndef_rec_set_id_len_def
  ndef_rec_set_payload_len_def NDEF_FLAG_MB_def NDEF_FLAG_ME_def NDEF_FLAG_IL_def
  NDEF_FLAG_SR_def NDEF_TNF_BITS_def Let_def

text \<open>The first half of claim C3: a record with SR among its flags whose payload decodes
  to more than 255 bytes makes the builder fail, whatever the capacity.\<close>

lemma build_ndef_rec_sr_long:
  assumes "rec_flags i n r AND NDEF_FLAG_SR \<noteq> 0"
    and "b64_decode (r_payload r) = Some p" and "255 < length p"
  shows "\<exists>e. build_ndef_rec len n i mem r = Inl e"
  using assms
  by (auto simp: build_ndef_rec_def Let_def decode_base64_def split: option.splits sum.splits)

lemma build_ndef_loop_sr_long:
  assumes "k < length recs"
    and "rec_flags (i + k) n (recs ! k) AND NDEF_FLAG_SR \<noteq> 0"
    and "b64_decode (r_payload (recs ! k)) = Some p" and "255 < length p"
  shows "\<exists>e. build_ndef_loop len n i mem recs = Inl e"
  using assms
proof (induction recs arbitrary: i k mem)
  case Nil
  then show ?case by simp
next
  case (Cons r recs)
  show ?case
  proof (cases k)
    case 0
    with Cons.prems build_ndef_rec_sr_long [of i n r p len mem] show ?thesis by auto
  next
    case (Suc j)
    with Cons.prems Cons.IH [of j "i + 1"] show ?thesis
      by (auto split: sum.splits)
  qed
qed

lemma build_ndef_msg_sr_long:
  assumes "k < length recs"
    and "rec_flags k (length recs) (recs ! k) AND NDEF_FLAG_SR \<noteq> 0"
    and "b64_decode (r_payload (recs ! k)) = Some p" and "255 < length p"
  shows "\<exists>e. build_ndef_msg recs len = Inl e"
  using build_ndef_loop_sr_long [of k recs 0 "length recs" p len "[]"] assms
  by (simp add: build_ndef_msg_def)

text \<open>A failing decode makes the builder fail.\<close>

lemma build_ndef_rec_decode_fails:
  "decode_base64 (r_type r) (size_sub len (length (mem @ ndef_create_rec (rec_flags i n r) (r_tnf r))))
     = None
   \<Longrightarrow> build_ndef_rec len n i mem r = Inl Decode_failed"
  by (simp add: build_ndef_rec_def Let_def)

text \<open>Claim C3, second half, where the code and the claim part. In a buffer of 13 bytes
  the first record takes 12; the header of the second is stored behind the buffer's end,
  \<^verbatim>\<open>len-off\<close> wraps around, and the builder returns 24 although no field of the second
  record fits the byte that was left. In a buffer of no byte at all (the assertion
  \<^verbatim>\<open>buf || !len\<close> allows it) the builder returns 12.\<close>

theorem build_overruns_small_buffer:
  "build_ndef_msg [rec0 0, rec0 0] 13 =
     Inr [129, 3, 0, 0, 0, 3, 65, 66, 67, 68, 69, 70, 65, 3, 0, 0, 0, 3, 65, 66, 67, 68, 69, 70]
   \<and> size_sub 13 18 = 2 ^ 64 - 5
   \<and> decode_base64 ''QUJD'' 1 = None
   \<and> build_ndef_msg [rec0 0] 0 = Inr [193, 3, 0, 0, 0, 3, 65, 66, 67, 68, 69, 70]"
  by (simp add: build_defs rec0_def)

section \<open>The record parser: reserved flag bits\<close>

lemma parse_ndef_rec_flags:
  "parse_ndef_rec K args = Inr (r, a) \<Longrightarrow> r_flags r AND NOT (NDEF_FLAG_BITS K) = 0"
  by (auto simp: parse_ndef_rec_def split: prod.splits option.splits sum.splits if_splits)

lemma parse_ndef_recs_flags:
  "parse_ndef_recs K n args = Inr (rs, a) \<Longrightarrow> r \<in> set rs
   \<Longrightarrow> r_flags r AND NOT (NDEF_FLAG_BITS K) = 0"
proof (induction n arbitrary: args rs a)
  case 0
  then show ?case by simp
next
  case (Suc n)
  then show ?case
    by (auto split: if_splits sum.splits prod.splits dest: parse_ndef_rec_flags)
qed

lemma parse_ndef_msg_flags:
  "parse_ndef_msg K args n = Inr rs \<Longrightarrow> r \<in> set rs
   \<Longrightarrow> r_flags r AND NOT (NDEF_FLAG_BITS K) = 0"
  by (auto simp: parse_ndef_msg_def split: sum.splits prod.splits option.splits if_splits
           dest: parse_ndef_recs_flags)

lemma and_not_mask_disjoint:
  "(x::'a::len word) AND NOT m = 0 \<Longrightarrow> m AND c = 0 \<Longrightarrow> x AND c = 0"
  by (auto simp: bit_eq_iff bit_and_iff bit_not_iff)

lemma and_or3_zero:
  "(x::'a::len word) AND (a OR b OR c) = 0 \<Longrightarrow> x AND a = 0 \<and> x AND b = 0 \<and> x AND c = 0"
  by (simp add: bit.conj_disj_distrib or_eq_0_iff)

lemma ucast_and_byte: "(ucast ((x::ulong) AND ucast (c::byte)) :: byte) = ucast x AND c"
  by (rule bit_word_eqI) (auto simp: bit_and_iff bit_ucast_iff)

lemma derived_bit_iff:
  "(f::byte) AND c = 0 \<Longrightarrow> c \<noteq> 0 \<Longrightarrow> x AND c = 0 \<Longrightarrow> y AND c = 0
   \<Longrightarrow> ((f OR (if A then c else 0) OR x OR y) AND c \<noteq> 0) = A"
  by (cases A) (simp_all add: bit.conj_disj_distrib2 or_eq_0_iff)

lemma rec_flags_mb_iff:
  "(ucast (r_flags r) :: byte) AND NDEF_FLAG_MB = 0
   \<Longrightarrow> (rec_flags i n r AND NDEF_FLAG_MB \<noteq> 0) = (i = 0)"
  unfolding rec_flags_def
  by (rule derived_bit_iff) (simp_all add: NDEF_FLAG_MB_def NDEF_FLAG_ME_def NDEF_FLAG_IL_def)

lemma rec_flags_me_iff:
  "(ucast (r_flags r) :: byte) AND NDEF_FLAG_ME = 0
   \<Longrightarrow> (rec_flags i n r AND NDEF_FLAG_ME \<noteq> 0) = (i + 1 = n)"
proof -
  assume f: "(ucast (r_flags r) :: byte) AND NDEF_FLAG_ME = 0"
  have "rec_flags i n r =
          ucast (r_flags r) OR (if i + 1 = n then NDEF_FLAG_ME else 0)
          OR (if i = 0 then NDEF_FLAG_MB else 0)
          OR (if length (r_id r) \<noteq> 0 then NDEF_FLAG_IL else 0)"
    by (simp add: rec_flags_def ac_simps)
  moreover have "((ucast (r_flags r) OR (if i + 1 = n then NDEF_FLAG_ME else 0)
          OR (if i = 0 then NDEF_FLAG_MB else 0)
          OR (if length (r_id r) \<noteq> 0 then NDEF_FLAG_IL else 0)) AND NDEF_FLAG_ME \<noteq> 0)
        = (i + 1 = n)"
    by (rule derived_bit_iff [OF f])
       (simp_all add: NDEF_FLAG_MB_def NDEF_FLAG_ME_def NDEF_FLAG_IL_def)
  ultimately show ?thesis by simp
qed

text \<open>A record that \<open>parse_ndef_msg\<close> returns has no flag outside \<open>NDEF_FLAG_BITS\<close>;
  where that mask holds none of MB, ME and IL, the derived bits are those of the
  formula.\<close>

lemma parse_ndef_msg_accepted_flags:
  assumes "parse_ndef_msg K args nrecs = Inr recs"
    and "NDEF_FLAG_BITS K AND ucast (NDEF_FLAG_MB OR NDEF_FLAG_ME OR NDEF_FLAG_IL) = 0"
    and "i < length recs"
  shows "r_flags (recs ! i) AND NOT (NDEF_FLAG_BITS K) = 0
       \<and> (ucast (r_flags (recs ! i)) :: byte) AND (NDEF_FLAG_MB OR NDEF_FLAG_ME OR NDEF_FLAG_IL) = 0
       \<and> (rec_flags i (length recs) (recs ! i) AND NDEF_FLAG_MB \<noteq> 0 \<longleftrightarrow> i = 0)
       \<and> (rec_flags i (length recs) (recs ! i) AND NDEF_FLAG_ME \<noteq> 0 \<longleftrightarrow> i + 1 = length recs)
       \<and> (rec_flags i (length recs) (recs ! i) AND NDEF_FLAG_IL \<noteq> 0 \<longleftrightarrow> r_id (recs ! i) \<noteq> [])"
proof -
  let ?r = "recs ! i"
  let ?f = "ucast (r_flags ?r) :: byte"
  have m: "r_flags ?r AND NOT (NDEF_FLAG_BITS K) = 0"
    using assms(1,3) by (auto intro: parse_ndef_msg_flags)
  have "r_flags ?r AND ucast (NDEF_FLAG_MB OR NDEF_FLAG_ME OR NDEF_FLAG_IL) = 0"
    by (rule and_not_mask_disjoint [OF m assms(2)])
  then have "ucast (r_flags ?r AND ucast (NDEF_FLAG_MB OR NDEF_FLAG_ME OR NDEF_FLAG_IL)) = (0::byte)"
    by simp
  then have f: "?f AND (NDEF_FLAG_MB OR NDEF_FLAG_ME OR NDEF_FLAG_IL) = 0"
    by (simp only: ucast_and_byte)
  from and_or3_zero [OF f]
  have mb: "?f AND NDEF_FLAG_MB = 0" and me: "?f AND NDEF_FLAG_ME = 0"
    and il: "?f AND NDEF_FLAG_IL = 0"
    by simp_all
  have "rec_flags i (length recs) ?r AND NDEF_FLAG_MB \<noteq> 0 \<longleftrightarrow> i = 0"
    by (rule rec_flags_mb_iff [OF mb])
  moreover have "rec_flags i (length recs) ?r AND NDEF_FLAG_ME \<noteq> 0 \<longleftrightarrow> i + 1 = length recs"
    by (rule rec_flags_me_iff [OF me])
  moreover have "rec_flags i (length recs) ?r AND NDEF_FLAG_IL \<noteq> 0 \<longleftrightarrow> r_id ?r \<noteq> []"
    using il by (simp add: rec_flags_il)
  ultimately show ?thesis using m f by simp
qed

lemma parse_sr_record_example:
  "parse_ndef_msg K0 (Some ''[16,1,QUJD,,REVG]'') 4 = Inr [rec0 16]"
proof -
  have r: "parse_ndef_rec K0 (Some ''[16,1,QUJD,,REVG]'') = Inr (rec0 16, Some [])"
    by (simp add: parse_ndef_rec_def lex_defs K0_def rec0_def)
  have "parse_ndef_recs K0 (Suc 3) (Some ''[16,1,QUJD,,REVG]'') = Inr ([rec0 16], Some [])"
    by (rule parse_ndef_recs_step [OF r]) (simp add: parse_ndef_recs_end)
  then show ?thesis by (simp add: parse_ndef_msg_def del: parse_ndef_recs.simps)
qed

lemma K0_mask:
  "NDEF_FLAG_BITS K0 AND ucast (NDEF_FLAG_MB OR NDEF_FLAG_ME OR NDEF_FLAG_IL) = 0"
  by (simp add: K0_def NDEF_FLAG_MB_def NDEF_FLAG_ME_def NDEF_FLAG_IL_def)

lemma parse_ndef_rec_rejects:
  assumes "strsep args ''['' = (Some p, args0)"
    and "parse_token_ul ''NDEF flags'' '' ,'' args0 = Inr (flags, args1)"
    and "flags AND NOT (NDEF_FLAG_BITS K) \<noteq> 0"
  shows "parse_ndef_rec K args = Inl (Invalid_ndef_flags flags)"
  using assms by (simp add: parse_ndef_rec_def del: strsep.simps)

lemma parse_ndef_rec_keeps_flags:
  assumes "strsep args ''['' = (Some p, args0)"
    and "parse_token_ul ''NDEF flags'' '' ,'' args0 = Inr (flags, args1)"
    and "parse_ndef_rec K args = Inr (r, a)"
  shows "r_flags r = flags"
  using assms
  by (auto simp: parse_ndef_rec_def simp del: strsep.simps
           split: sum.splits prod.splits if_splits)

lemma reserved_bit_outside_mask:
  assumes "NDEF_FLAG_BITS K AND ucast (NDEF_FLAG_MB OR NDEF_FLAG_ME OR NDEF_FLAG_IL) = 0"
    and "(ucast (flags::ulong) :: byte) AND (NDEF_FLAG_MB OR NDEF_FLAG_ME OR NDEF_FLAG_IL) \<noteq> 0"
  shows "flags AND NOT (NDEF_FLAG_BITS K) \<noteq> 0"
proof
  assume m: "flags AND NOT (NDEF_FLAG_BITS K) = 0"
  have "flags AND ucast (NDEF_FLAG_MB OR NDEF_FLAG_ME OR NDEF_FLAG_IL) = 0"
    by (rule and_not_mask_disjoint [OF m assms(1)])
  then have "ucast (flags AND ucast (NDEF_FLAG_MB OR NDEF_FLAG_ME OR NDEF_FLAG_IL)) = (0::byte)"
    by simp
  then have "(ucast flags :: byte) AND (NDEF_FLAG_MB OR NDEF_FLAG_ME OR NDEF_FLAG_IL) = 0"
    by (simp only: ucast_and_byte)
  with assms(2) show False by simp
qed

text \<open>A record that is refused after \<open>n\<close> records were read makes the whole line fail
  with the record's message.\<close>

lemma parse_ndef_recs_rejects:
  assumes "parse_ndef_recs K n args = Inr (rs, a)" and "length rs = n"
    and "a \<noteq> None" and "a \<noteq> Some []" and "parse_ndef_rec K a = Inl e"
  shows "parse_ndef_recs K (n + Suc m) args = Inl e"
  using assms
proof (induction n arbitrary: args rs)
  case 0
  then show ?case by simp
next
  case (Suc n)
  from Suc.prems(1,2) have ne: "args \<noteq> None" "args \<noteq> Some []"
    by (auto split: if_splits)
  with Suc.prems(1) obtain r a1 rs' where
    r: "parse_ndef_rec K args = Inr (r, a1)" and
    rest: "parse_ndef_recs K n a1 = Inr (rs', a)" and rs: "rs = r # rs'"
    by (auto split: sum.splits prod.splits)
  from Suc.prems(2) rs have "length rs' = n" by simp
  from Suc.IH [OF rest this Suc.prems(3,4,5)]
  have "parse_ndef_recs K (n + Suc m) a1 = Inl e" .
  with r ne show ?case by simp
qed

lemma parse_ndef_msg_rejects:
  assumes "parse_ndef_recs K n args = Inr (rs, a)" and "length rs = n"
    and "a \<noteq> None" and "a \<noteq> Some []" and "parse_ndef_rec K a = Inl e"
  shows "parse_ndef_msg K args (n + Suc m) = Inl e"
  using parse_ndef_recs_rejects [OF assms, of m]
  by (simp add: parse_ndef_msg_def del: parse_ndef_recs.simps)

text \<open>Claim C8. Once the opening bracket and the flags token are read, \<open>parse_ndef_rec\<close>
  refuses the record with "invalid NDEF flags" when the flags hold a bit outside
  \<open>NDEF_FLAG_BITS\<close>, and a record it accepts carries the flags as they were read. A
  record refused after \<open>n\<close> records makes \<open>parse_ndef_msg\<close> fail with the same message, so
  that nothing is handed to \<open>build_ndef_msg\<close>; every record that \<open>parse_ndef_msg\<close> returns
  has no flag outside the mask. Where the mask holds none of MB, ME and IL, as the spec
  says of it, flags that hold one of the three are refused, the flags of a returned
  record hold none of them, and of the flags that \<open>build_ndef_msg\<close> derives MB is set
  exactly for the first record, ME exactly for the last and IL exactly for a record
  whose id text is not empty.\<close>

theorem parse_ndef_rec_reserved_flags:
  "(strsep args ''['' = (Some p, args0)
      \<and> parse_token_ul ''NDEF flags'' '' ,'' args0 = Inr (flags, args1) \<longrightarrow>
        (flags AND NOT (NDEF_FLAG_BITS K) \<noteq> 0 \<longrightarrow>
           parse_ndef_rec K args = Inl (Invalid_ndef_flags flags))
      \<and> (NDEF_FLAG_BITS K AND ucast (NDEF_FLAG_MB OR NDEF_FLAG_ME OR NDEF_FLAG_IL) = 0
           \<and> (ucast flags :: byte) AND (NDEF_FLAG_MB OR NDEF_FLAG_ME OR NDEF_FLAG_IL) \<noteq> 0 \<longrightarrow>
           parse_ndef_rec K args = Inl (Invalid_ndef_flags flags))
      \<and> (\<forall>r a'. parse_ndef_rec K args = Inr (r, a') \<longrightarrow>
             r_flags r = flags \<and> flags AND NOT (NDEF_FLAG_BITS K) = 0))
   \<and> (parse_ndef_recs K n line = Inr (rs, a) \<and> length rs = n \<and> a \<noteq> None \<and> a \<noteq> Some []
        \<and> parse_ndef_rec K a = Inl e \<longrightarrow>
        parse_ndef_msg K line (n + Suc m) = Inl e)
   \<and> (parse_ndef_msg K line nrecs = Inr recs \<and> i < length recs \<longrightarrow>
        r_flags (recs ! i) AND NOT (NDEF_FLAG_BITS K) = 0
        \<and> (NDEF_FLAG_BITS K AND ucast (NDEF_FLAG_MB OR NDEF_FLAG_ME OR NDEF_FLAG_IL) = 0 \<longrightarrow>
             (ucast (r_flags (recs ! i)) :: byte)
               AND (NDEF_FLAG_MB OR NDEF_FLAG_ME OR NDEF_FLAG_IL) = 0
             \<and> (rec_flags i (length recs) (recs ! i) AND NDEF_FLAG_MB \<noteq> 0 \<longleftrightarrow> i = 0)
             \<and> (rec_flags i (length recs) (recs ! i) AND NDEF_FLAG_ME \<noteq> 0
                  \<longleftrightarrow> i + 1 = length recs)
             \<and> (rec_flags i (length recs) (recs ! i) AND NDEF_FLAG_IL \<noteq> 0
                  \<longleftrightarrow> r_id (recs ! i) \<noteq> [])))"
proof (intro conjI impI allI)
  assume h: "strsep args ''['' = (Some p, args0)
      \<and> parse_token_ul ''NDEF flags'' '' ,'' args0 = Inr (flags, args1)"
  {
    assume "flags AND NOT (NDEF_FLAG_BITS K) \<noteq> 0"
    with h show "parse_ndef_rec K args = Inl (Invalid_ndef_flags flags)"
      by (blast intro: parse_ndef_rec_rejects)
  }
  {
    assume "NDEF_FLAG_BITS K AND ucast (NDEF_FLAG_MB OR NDEF_FLAG_ME OR NDEF_FLAG_IL) = 0
           \<and> (ucast flags :: byte) AND (NDEF_FLAG_MB OR NDEF_FLAG_ME OR NDEF_FLAG_IL) \<noteq> 0"
    then have "flags AND NOT (NDEF_FLAG_BITS K) \<noteq> 0"
      by (elim conjE) (rule reserved_bit_outside_mask)
    with h show "parse_ndef_rec K args = Inl (Invalid_ndef_flags flags)"
      by (blast intro: parse_ndef_rec_rejects)
  }
  {
    fix r a'
    assume r: "parse_ndef_rec K args = Inr (r, a')"
    with h show "r_flags r = flags"
      by (blast intro: parse_ndef_rec_keeps_flags)
    with parse_ndef_rec_flags [OF r] show "flags AND NOT (NDEF_FLAG_BITS K) = 0"
      by simp
  }
next
  assume "parse_ndef_recs K n line = Inr (rs, a) \<and> length rs = n \<and> a \<noteq> None \<and> a \<noteq> Some []
        \<and> parse_ndef_rec K a = Inl e"
  then show "parse_ndef_msg K line (n + Suc m) = Inl e"
    by (blast intro: parse_ndef_msg_rejects)
next
  assume h: "parse_ndef_msg K line nrecs = Inr recs \<and> i < length recs"
  then show "r_flags (recs ! i) AND NOT (NDEF_FLAG_BITS K) = 0"
    by (auto intro: parse_ndef_msg_flags)
  assume m: "NDEF_FLAG_BITS K AND ucast (NDEF_FLAG_MB OR NDEF_FLAG_ME OR NDEF_FLAG_IL) = 0"
  from h have p: "parse_ndef_msg K line nrecs = Inr recs" and i: "i < length recs"
    by simp_all
  note acc = parse_ndef_msg_accepted_flags [OF p m i]
  from acc show "(ucast (r_flags (recs ! i)) :: byte)
               AND (NDEF_FLAG_MB OR NDEF_FLAG_ME OR NDEF_FLAG_IL) = 0"
    by blast
  from acc show "rec_flags i (length recs) (recs ! i) AND NDEF_FLAG_MB \<noteq> 0 \<longleftrightarrow> i = 0"
    by blast
  from acc show "rec_flags i (length recs) (recs ! i) AND NDEF_FLAG_ME \<noteq> 0
                 \<longleftrightarrow> i + 1 = length recs"
    by blast
  from acc show "rec_flags i (length recs) (recs ! i) AND NDEF_FLAG_IL \<noteq> 0
                 \<longleftrightarrow> r_id (recs ! i) \<noteq> []"
    by blast
qed

lemma strsep_bracket_example:
  "strsep (Some ''[128,1,QUJD,,REVG]'') ''['' = (Some [], Some ''128,1,QUJD,,REVG]'')"
  by simp

lemma flags_token_example:
  "parse_token_ul ''NDEF flags'' '' ,'' (Some ''128,1,QUJD,,REVG]'')
   = Inr (128, Some ''1,QUJD,,REVG]'')"
  by (simp add: lex_defs)

lemma parse_first_of_two_example:
  "parse_ndef_recs K0 (Suc 0) (Some ''[16,1,QUJD,,REVG] [8,1,QUJD,,REVG]'')
   = Inr ([rec0 16], Some '' [8,1,QUJD,,REVG]'')"
proof -
  have r: "parse_ndef_rec K0 (Some ''[16,1,QUJD,,REVG] [8,1,QUJD,,REVG]'')
           = Inr (rec0 16, Some '' [8,1,QUJD,,REVG]'')"
    by (simp add: parse_ndef_rec_def lex_defs K0_def rec0_def)
  show ?thesis
    by (rule parse_ndef_recs_step [OF r]) simp
qed

lemma parse_second_refused_example:
  "parse_ndef_rec K0 (Some '' [8,1,QUJD,,REVG]'') = Inl (Invalid_ndef_flags 8)"
  by (simp add: parse_ndef_rec_def lex_defs K0_def)

theorem parse_ndef_rec_reserved_flags_witness:
  "parse_ndef_rec K0 (Some ''[128,1,QUJD,,REVG]'') = Inl (Invalid_ndef_flags 128)
   \<and> parse_ndef_msg K0 (Some ''[16,1,QUJD,,REVG] [8,1,QUJD,,REVG]'') 4 = Inl (Invalid_ndef_flags 8)
   \<and> r_flags (rec0 16) AND NOT (NDEF_FLAG_BITS K0) = 0
   \<and> rec_flags 0 1 (rec0 16) AND NDEF_FLAG_MB \<noteq> 0
   \<and> rec_flags 0 1 (rec0 16) AND NDEF_FLAG_ME \<noteq> 0
   \<and> rec_flags 0 1 (rec0 16) AND NDEF_FLAG_IL = 0"
proof -
  have out: "(ucast (128::ulong) :: byte) AND (NDEF_FLAG_MB OR NDEF_FLAG_ME OR NDEF_FLAG_IL) \<noteq> 0"
    by (simp add: NDEF_FLAG_MB_def NDEF_FLAG_ME_def NDEF_FLAG_IL_def)
  have "parse_ndef_rec K0 (Some ''[128,1,QUJD,,REVG]'') = Inl (Invalid_ndef_flags 128)"
    using parse_ndef_rec_reserved_flags
            [of "Some ''[128,1,QUJD,,REVG]''" "[]" "Some ''128,1,QUJD,,REVG]''" 128
                "Some ''1,QUJD,,REVG]''" K0]
          strsep_bracket_example flags_token_example K0_mask out
    by blast
  moreover have "parse_ndef_msg K0 (Some ''[16,1,QUJD,,REVG] [8,1,QUJD,,REVG]'') (Suc 0 + Suc 2)
                 = Inl (Invalid_ndef_flags 8)"
    using parse_ndef_rec_reserved_flags
            [where K = K0 and n = "Suc 0" and rs = "[rec0 16]" and m = 2
               and line = "Some ''[16,1,QUJD,,REVG] [8,1,QUJD,,REVG]''"
               and a = "Some '' [8,1,QUJD,,REVG]''" and e = "Invalid_ndef_flags 8"]
          parse_first_of_two_example parse_second_refused_example
    by simp
  moreover have "r_flags (rec0 16) AND NOT (NDEF_FLAG_BITS K0) = 0
     \<and> (rec_flags 0 (length [rec0 16]) ([rec0 16] ! 0) AND NDEF_FLAG_MB \<noteq> 0 \<longleftrightarrow> (0::nat) = 0)
     \<and> (rec_flags 0 (length [rec0 16]) ([rec0 16] ! 0) AND NDEF_FLAG_ME \<noteq> 0
          \<longleftrightarrow> (0::nat) + 1 = length [rec0 16])
     \<and> (rec_flags 0 (length [rec0 16]) ([rec0 16] ! 0) AND NDEF_FLAG_IL \<noteq> 0
          \<longleftrightarrow> r_id ([rec0 16] ! 0) \<noteq> [])"
    using parse_ndef_rec_reserved_flags
            [where K = K0 and line = "Some ''[16,1,QUJD,,REVG]''" and nrecs = 4
               and recs = "[rec0 16]" and i = 0]
          parse_sr_record_example K0_mask
    by simp
  ultimately show ?thesis by (simp add: rec0_def)
qed

section \<open>The reporter over a built message\<close>

lemma b64_encode_length: "length (b64_encode bs) = (4 * length bs + 2) div 3"
  by (induction bs rule: b64_encode.induct) auto

lemma encode_base64_fits:
  "length bs \<le> 384 \<Longrightarrow> encode_base64 bs 512 = Some (b64_encode bs)"
  by (simp add: encode_base64_def b64_encode_length)

lemma be32_nat:
  "n div 16777216 * 16777216 + n div 65536 mod 256 * 65536 + n div 256 mod 256 * 256
   + n mod 256 = (n::nat)"
proof -
  define a where "a = n div 256"
  define b where "b = a div 256"
  define c where "c = b div 256"
  define nm where "nm = n mod 256"
  define am where "am = a mod 256"
  define bm where "bm = b mod 256"
  have d2: "n div 65536 = b"
    unfolding a_def b_def by (simp add: div_mult2_eq [symmetric])
  have d3: "n div 16777216 = c"
    unfolding a_def b_def c_def by (simp add: div_mult2_eq [symmetric])
  have "n = a * 256 + nm" "a = b * 256 + am" "b = c * 256 + bm"
    unfolding a_def b_def c_def nm_def am_def bm_def by simp_all
  then have "n = ((c * 256 + bm) * 256 + am) * 256 + nm"
    by simp
  then have "c * 16777216 + bm * 65536 + am * 256 + nm = n"
    by (simp add: algebra_simps)
  then show ?thesis
    unfolding d2 d3 a_def [symmetric] am_def [symmetric] bm_def [symmetric] nm_def [symmetric] .
qed

lemma unat_byte_of_nat: "n \<le> 255 \<Longrightarrow> unat (word_of_nat n :: byte) = n"
  by (simp add: unat_of_nat)

lemma hdr_tnf:
  "((f AND NOT NDEF_TNF_BITS) OR (t AND NDEF_TNF_BITS)) AND NDEF_TNF_BITS = t AND NDEF_TNF_BITS"
  by (auto simp: bit_eq_iff bit_and_iff bit_or_iff bit_not_iff)

text \<open>The fields of an image are read back, given that every length fits its header
  field.\<close>

lemma ndef_image_getters:
  assumes "length t \<le> 255" and "length d \<le> 255" and "length p < 2 ^ 32"
    and "f AND NDEF_FLAG_SR \<noteq> 0 \<longrightarrow> length p \<le> 255"
    and "f AND NDEF_FLAG_IL = 0 \<longrightarrow> d = []"
  shows "ndef_rec_hdr_len (ndef_image f tnf t d p @ rest)
           = 2 + (if f AND NDEF_FLAG_SR \<noteq> 0 then 1 else 4) + (if f AND NDEF_FLAG_IL \<noteq> 0 then 1 else 0)"
    and "ndef_rec_type_len (ndef_image f tnf t d p @ rest) = length t"
    and "ndef_rec_id_len (ndef_image f tnf t d p @ rest) = length d"
    and "ndef_rec_payload_len (ndef_image f tnf t d p @ rest) = length p"
  using assms
  by (auto simp: ndef_image_def ndef_rec_hdr_len_def ndef_rec_type_len_def ndef_rec_id_len_def
                 ndef_rec_payload_len_def hdr_sr hdr_il unat_of_nat be32_nat)

lemma ndef_image_length:
  "length (ndef_image f tnf t d p) =
     2 + (if f AND NDEF_FLAG_SR \<noteq> 0 then 1 else 4) + (if f AND NDEF_FLAG_IL \<noteq> 0 then 1 else 0)
     + length t + length d + length p"
  by (simp add: ndef_image_def)

lemma ndef_image_fields:
  "\<exists>h. ndef_image f tnf t d p = h @ t @ d @ p
       \<and> length h = 2 + (if f AND NDEF_FLAG_SR \<noteq> 0 then 1 else 4)
                     + (if f AND NDEF_FLAG_IL \<noteq> 0 then 1 else 0)"
  by (simp add: ndef_image_def)

lemma ndef_image_report:
  assumes "length t \<le> 255" and "length d \<le> 255" and "length p < 2 ^ 32"
    and "f AND NDEF_FLAG_SR \<noteq> 0 \<longrightarrow> length p \<le> 255"
    and "f AND NDEF_FLAG_IL = 0 \<longrightarrow> d = []"
  shows "ndef_rec_len (ndef_image f tnf t d p @ rest) = length (ndef_image f tnf t d p)"
    and "report_entry (ndef_image f tnf t d p @ rest) =
           \<lparr> e_tnf = word_of_nat tnf AND NDEF_TNF_BITS, e_type = encode_base64 t 512,
             e_id = encode_base64 d 512, e_payload = encode_base64 p 512 \<rparr>"
proof -
  let ?w = "ndef_image f tnf t d p"
  note g = ndef_image_getters [where f = f and t = t and d = d and p = p and tnf = tnf and rest = rest, OF assms]
  show "ndef_rec_len (?w @ rest) = length ?w"
    by (simp add: ndef_rec_len_def g ndef_image_length)
  obtain h where h: "?w = h @ t @ d @ p"
    and lh: "length h = 2 + (if f AND NDEF_FLAG_SR \<noteq> 0 then 1 else 4)
                          + (if f AND NDEF_FLAG_IL \<noteq> 0 then 1 else 0)"
    using ndef_image_fields by blast
  have hl: "ndef_rec_hdr_len (?w @ rest) = length h"
    using g(1) lh by simp
  have ty: "ndef_rec_const_type (?w @ rest) = t"
    unfolding ndef_rec_const_type_def g(2) hl by (simp add: h)
  have idf: "ndef_rec_const_id (?w @ rest) = d"
    unfolding ndef_rec_const_id_def g(2,3) hl by (simp add: h)
  have pl: "ndef_rec_const_payload (?w @ rest) = p"
    unfolding ndef_rec_const_payload_def g(2,3,4) hl by (simp add: h)
  have hd0: "(?w @ rest) ! 0 = (f AND NOT NDEF_TNF_BITS) OR (word_of_nat tnf AND NDEF_TNF_BITS)"
    by (simp add: ndef_image_def)
  show "report_entry (?w @ rest) =
           \<lparr> e_tnf = word_of_nat tnf AND NDEF_TNF_BITS, e_type = encode_base64 t 512,
             e_id = encode_base64 d 512, e_payload = encode_base64 p 512 \<rparr>"
    unfolding report_entry_def ty idf pl hd0 hdr_tnf ..
qed

text \<open>One turn of the reporter's loop over an image that is followed by \<open>rest\<close>.\<close>

lemma report_image_step:
  assumes "length t \<le> 255" and "length d \<le> 255" and "length p < 2 ^ 32"
    and "f AND NDEF_FLAG_SR \<noteq> 0 \<longrightarrow> length p \<le> 255"
    and "f AND NDEF_FLAG_IL = 0 \<longrightarrow> d = []"
    and "sz \<le> 3"
  shows "nfc_recv_process_ndef_cb sz (ndef_image f tnf t d p @ rest) =
           (case nfc_recv_process_ndef_cb sz rest of
              Inl e \<Rightarrow> Inl e
            | Inr es \<Rightarrow>
                Inr (\<lparr> e_tnf = word_of_nat tnf AND NDEF_TNF_BITS, e_type = encode_base64 t 512,
                       e_id = encode_base64 d 512, e_payload = encode_base64 p 512 \<rparr> # es))"
proof -
  let ?w = "ndef_image f tnf t d p"
  note r = ndef_image_report [where f = f and t = t and d = d and p = p and tnf = tnf and rest = rest, OF assms(1-5)]
  note g = ndef_image_getters [where f = f and t = t and d = d and p = p and tnf = tnf and rest = rest, OF assms(1-5)]
  have len: "3 \<le> length ?w" "ndef_rec_hdr_len (?w @ rest) \<le> length ?w"
    by (simp_all add: ndef_image_length g(1))
  have "?w @ rest \<noteq> []" "\<not> length (?w @ rest) < sz"
       "\<not> length (?w @ rest) < ndef_rec_hdr_len (?w @ rest)"
       "\<not> length (?w @ rest) < ndef_rec_len (?w @ rest)"
    using len assms(6) by (auto simp: r(1))
  then have step: "nfc_recv_process_ndef_cb sz (?w @ rest) =
      (case nfc_recv_process_ndef_cb sz (drop (ndef_rec_len (?w @ rest)) (?w @ rest)) of
         Inl e \<Rightarrow> Inl e
       | Inr es \<Rightarrow> Inr (report_entry (?w @ rest) # es))"
    by (subst nfc_recv_process_ndef_cb.simps) (simp only: if_False)
  show ?thesis
    unfolding step r(1)
    by (cases "nfc_recv_process_ndef_cb sz rest") (simp_all add: r(2))
qed

lemma field_bytes_empty: "field_bytes [] = []"
  by (simp add: field_bytes_def)

lemma rec_flags_no_il: "rec_flags i n r AND NDEF_FLAG_IL = 0 \<Longrightarrow> r_id r = []"
  using rec_flags_il [of i n r] by auto

lemma build_ndef_rec_sr_short:
  assumes "build_ndef_rec len n i mem r = Inr mem'"
    and "rec_flags i n r AND NDEF_FLAG_SR \<noteq> 0"
  shows "length (field_bytes (r_payload r)) \<le> 255"
  using assms
  by (auto simp: build_ndef_rec_def Let_def decode_base64_Some field_bytes_Some
           split: option.splits sum.splits if_splits)

lemma report_rec_image_step:
  assumes "build_ndef_rec len n i mem r = Inr mem'" and "fits r" and "sz \<le> 3"
  shows "nfc_recv_process_ndef_cb sz (rec_image i n r @ rest) =
           (case nfc_recv_process_ndef_cb sz rest of
              Inl e \<Rightarrow> Inl e
            | Inr es \<Rightarrow> Inr (entry_of r # es))"
proof -
  let ?f = "rec_flags i n r"
  let ?d = "if ?f AND NDEF_FLAG_IL \<noteq> 0 then field_bytes (r_id r) else []"
  have d: "?d = field_bytes (r_id r)"
    using rec_flags_no_il [of i n r] by (auto simp: field_bytes_empty)
  have "length (field_bytes (r_type r)) \<le> 255" "length ?d \<le> 255"
       "length (field_bytes (r_payload r)) < 2 ^ 32"
       "?f AND NDEF_FLAG_SR \<noteq> 0 \<longrightarrow> length (field_bytes (r_payload r)) \<le> 255"
       "?f AND NDEF_FLAG_IL = 0 \<longrightarrow> ?d = []"
    using assms(2) build_ndef_rec_sr_short [OF assms(1)] by (auto simp: fits_def)
  from report_image_step [where f = ?f and t = "field_bytes (r_type r)" and d = ?d
         and p = "field_bytes (r_payload r)" and tnf = "r_tnf r" and rest = rest, OF this assms(3)]
  have "nfc_recv_process_ndef_cb sz (rec_image i n r @ rest) =
           (case nfc_recv_process_ndef_cb sz rest of
              Inl e \<Rightarrow> Inl e
            | Inr es \<Rightarrow>
                Inr (\<lparr> e_tnf = word_of_nat (r_tnf r) AND NDEF_TNF_BITS,
                       e_type = encode_base64 (field_bytes (r_type r)) 512,
                       e_id = encode_base64 (field_bytes (r_id r)) 512,
                       e_payload = encode_base64 (field_bytes (r_payload r)) 512 \<rparr> # es))"
    unfolding rec_image_def d .
  moreover have "encode_base64 (field_bytes (r_type r)) 512 = Some (b64_encode (field_bytes (r_type r)))"
    "encode_base64 (field_bytes (r_id r)) 512 = Some (b64_encode (field_bytes (r_id r)))"
    "encode_base64 (field_bytes (r_payload r)) 512 = Some (b64_encode (field_bytes (r_payload r)))"
    using assms(2) by (simp_all add: fits_def encode_base64_fits)
  ultimately show ?thesis
    by (cases "nfc_recv_process_ndef_cb sz rest") (simp_all add: entry_of_def)
qed

lemma report_images:
  assumes "build_ndef_loop len n i mem recs = Inr mem'"
    and "\<forall>r \<in> set recs. fits r" and "sz \<le> 3"
  shows "nfc_recv_process_ndef_cb sz (concat (rec_images n i recs)) = Inr (map entry_of recs)"
  using assms
proof (induction recs arbitrary: i mem)
  case Nil
  then show ?case by (simp add: nfc_recv_process_ndef_cb.simps)
next
  case (Cons r recs)
  from Cons.prems(1) obtain mem1 where
    r: "build_ndef_rec len n i mem r = Inr mem1" and
    rest: "build_ndef_loop len n (i + 1) mem1 recs = Inr mem'"
    by (auto split: sum.splits)
  have "nfc_recv_process_ndef_cb sz (concat (rec_images n (i + 1) recs))
        = Inr (map entry_of recs)"
    using Cons.IH [OF rest] Cons.prems(2,3) by simp
  with report_rec_image_step [where rest = "concat (rec_images n (i + 1) recs)", OF r _ Cons.prems(3)]
    Cons.prems(2)
  show ?case by simp
qed

section \<open>base64url: decoding what was encoded\<close>

lemma b64_value_char: "v < 64 \<Longrightarrow> b64_value (b64_char v) = Some v"
  by (auto simp: b64_value_def b64_char_def Let_def of_char_of char_of_eq_iff)

lemma unat_byte_lt: "unat (b::byte) < 256"
  using unsigned_less [of b] by simp

lemma sextet1: "(p::nat) < 256 \<Longrightarrow> p div 4 < 64"
  by simp

lemma sextet2: "(p::nat) mod 4 * 16 + q div 16 < 64" if "q < 256"
proof -
  have "p mod 4 \<le> 3" by simp
  moreover have "q div 16 \<le> 15" using that by simp
  ultimately show ?thesis by linarith
qed

lemma sextet3: "(q::nat) mod 16 * 4 + r div 64 < 64" if "r < 256"
proof -
  have "q mod 16 \<le> 15" by simp
  moreover have "r div 64 \<le> 3" using that by simp
  ultimately show ?thesis by linarith
qed

lemma octet1: "(p::nat) div 4 * 4 + (p mod 4 * 16 + q div 16) div 16 = p" if "q < 256"
proof -
  have "q div 16 < 16" using that by simp
  then have "(p mod 4 * 16 + q div 16) div 16 = p mod 4" by simp
  then show ?thesis by simp
qed

lemma octet2:
  "((p::nat) mod 4 * 16 + q div 16) mod 16 * 16 + (q mod 16 * 4 + r div 64) div 4 = q"
  if "q < 256" "r < 256"
proof -
  have "q div 16 < 16" using that by simp
  then have a: "(p mod 4 * 16 + q div 16) mod 16 = q div 16" by simp
  have "r div 64 < 4" using that by simp
  then have b: "(q mod 16 * 4 + r div 64) div 4 = q mod 16" by simp
  show ?thesis unfolding a b by simp
qed

lemma octet3: "((q::nat) mod 16 * 4 + r div 64) mod 4 * 64 + r mod 64 = r" if "r < 256"
proof -
  have "r div 64 < 4" using that by simp
  then have "(q mod 16 * 4 + r div 64) mod 4 = r div 64" by simp
  then show ?thesis by simp
qed

text \<open>The text of the report stands for the bytes it was made from, and for no
  others.\<close>

lemma b64_decode_encode: "b64_decode (b64_encode bs) = Some bs"
proof (induction bs rule: b64_encode.induct)
  case 1
  then show ?case by simp
next
  case (2 p)
  have b: "unat p div 4 < 64" "unat p mod 4 * 16 + 0 div 16 < 64"
    using unat_byte_lt [of p] by (simp_all only: sextet1 sextet2)
  have "unat p div 4 * 4 + (unat p mod 4 * 16 + 0 div 16) div 16 = unat p"
    by (rule octet1) simp
  then have "word_of_nat (unat p div 4 * 4 + unat p mod 4 * 16 div 16) = p"
    by simp
  with b show ?case by (simp add: b64_value_char)
next
  case (3 p q)
  have b: "unat p div 4 < 64" "unat p mod 4 * 16 + unat q div 16 < 64"
    "unat q mod 16 * 4 + 0 div 64 < 64"
    using unat_byte_lt [of p] unat_byte_lt [of q] by (simp_all only: sextet1 sextet2 sextet3)
  have "unat p div 4 * 4 + (unat p mod 4 * 16 + unat q div 16) div 16 = unat p"
    "(unat p mod 4 * 16 + unat q div 16) mod 16 * 16 + (unat q mod 16 * 4 + 0 div 64) div 4
     = unat q"
    using unat_byte_lt [of q] by (simp_all only: octet1 octet2)
  then have "word_of_nat (unat p div 4 * 4 + (unat p mod 4 * 16 + unat q div 16) div 16) = p"
    "word_of_nat ((unat p mod 4 * 16 + unat q div 16) mod 16 * 16 + unat q mod 16 * 4 div 4) = q"
    by simp_all
  with b show ?case by (simp add: b64_value_char)
next
  case (4 p q r rest)
  have b: "unat p div 4 < 64" "unat p mod 4 * 16 + unat q div 16 < 64"
    "unat q mod 16 * 4 + unat r div 64 < 64" "unat r mod 64 < 64"
    using unat_byte_lt [of p] unat_byte_lt [of q] unat_byte_lt [of r]
    by (simp_all only: sextet1 sextet2 sextet3)
  have "unat p div 4 * 4 + (unat p mod 4 * 16 + unat q div 16) div 16 = unat p"
    "(unat p mod 4 * 16 + unat q div 16) mod 16 * 16 + (unat q mod 16 * 4 + unat r div 64) div 4
     = unat q"
    "(unat q mod 16 * 4 + unat r div 64) mod 4 * 64 + unat r mod 64 = unat r"
    using unat_byte_lt [of q] unat_byte_lt [of r] by (simp_all only: octet1 octet2 octet3)
  then have "word_of_nat (unat p div 4 * 4 + (unat p mod 4 * 16 + unat q div 16) div 16) = p"
    "word_of_nat ((unat p mod 4 * 16 + unat q div 16) mod 16 * 16
                  + (unat q mod 16 * 4 + unat r div 64) div 4) = q"
    "word_of_nat ((unat q mod 16 * 4 + unat r div 64) mod 4 * 64 + unat r mod 64) = r"
    by simp_all
  with b 4 show ?case by (simp add: b64_value_char)
qed

section \<open>The report of a built message\<close>

lemma build_ndef_rec_decodes:
  assumes "build_ndef_rec len n i mem r = Inr mem'"
  shows "b64_decode (r_type r) = Some (field_bytes (r_type r))
       \<and> b64_decode (r_id r) = Some (field_bytes (r_id r))
       \<and> b64_decode (r_payload r) = Some (field_bytes (r_payload r))"
proof (cases "rec_flags i n r AND NDEF_FLAG_IL = 0")
  case True
  then have "r_id r = []" by (rule rec_flags_no_il)
  with assms True show ?thesis
    by (auto simp: build_ndef_rec_def Let_def decode_base64_Some field_bytes_def
             split: option.splits sum.splits if_splits)
next
  case False
  with assms show ?thesis
    by (auto simp: build_ndef_rec_def Let_def decode_base64_Some field_bytes_def
             split: option.splits sum.splits if_splits)
qed

lemma build_ndef_loop_decodes:
  assumes "build_ndef_loop len n i mem recs = Inr mem'" and "r \<in> set recs"
  shows "b64_decode (r_type r) = Some (field_bytes (r_type r))
       \<and> b64_decode (r_id r) = Some (field_bytes (r_id r))
       \<and> b64_decode (r_payload r) = Some (field_bytes (r_payload r))"
  using assms
proof (induction recs arbitrary: i mem)
  case Nil
  then show ?case by simp
next
  case (Cons a recs)
  from Cons.prems(1) obtain mem1 where
    a: "build_ndef_rec len n i mem a = Inr mem1" and
    rest: "build_ndef_loop len n (i + 1) mem1 recs = Inr mem'"
    by (auto split: sum.splits)
  show ?case
  proof (cases "r = a")
    case True
    with build_ndef_rec_decodes [OF a] show ?thesis by simp
  next
    case False
    with Cons.prems(2) have "r \<in> set recs" by simp
    with Cons.IH [OF rest] show ?thesis by simp
  qed
qed

lemma field_bytes_encode: "field_bytes (b64_encode bs) = bs"
  by (simp add: field_bytes_def b64_decode_encode)

lemma b64_decode_A:
  "b64_decode (replicate (4 * k) (CHR ''A'')) = Some (replicate (3 * k) 0)"
proof (induction k)
  case 0
  then show ?case by simp
next
  case (Suc k)
  have "replicate (4 * Suc k) (CHR ''A'')
        = CHR ''A'' # CHR ''A'' # CHR ''A'' # CHR ''A'' # replicate (4 * k) (CHR ''A'')"
    by (simp add: numeral_eq_Suc)
  moreover have "replicate (3 * Suc k) (0::byte) = 0 # 0 # 0 # replicate (3 * k) 0"
    by (simp add: numeral_eq_Suc)
  ultimately show ?case using Suc by (simp add: b64_value_def)
qed

lemma b64_decode_long: "b64_decode (r_payload rec_long) = Some (replicate 387 0)"
  using b64_decode_A [of 129] by (simp add: rec_long_def)

lemma rec_long_fields:
  "r_flags rec_long = 0" "r_tnf rec_long = 1" "r_type rec_long = ''QUJD''" "r_id rec_long = []"
  by (simp_all add: rec_long_def)

lemma build_rec_long:
  "build_ndef_msg [rec_long] 1024 = Inr ([193, 3, 0, 0, 1, 131, 65, 66, 67] @ replicate 387 0)"
  by (simp add: build_defs rec_long_fields b64_decode_long)

lemma report_rec_long:
  "nfc_recv_process_ndef_cb 2 ([193, 3, 0, 0, 1, 131, 65, 66, 67] @ replicate 387 0)
   = Inr [\<lparr> e_tnf = 1, e_type = Some ''QUJD'', e_id = Some [], e_payload = None \<rparr>]"
  apply (subst nfc_recv_process_ndef_cb.simps)
  apply (simp add: ndef_rec_len_def ndef_rec_hdr_len_def ndef_rec_type_len_def ndef_rec_id_len_def
      ndef_rec_payload_len_def NDEF_FLAG_SR_def NDEF_FLAG_IL_def NDEF_TNF_BITS_def)
  apply (simp add: nfc_recv_process_ndef_cb.simps report_entry_def ndef_rec_const_type_def
      ndef_rec_const_id_def ndef_rec_const_payload_def
      ndef_rec_hdr_len_def ndef_rec_type_len_def ndef_rec_id_len_def
      ndef_rec_payload_len_def NDEF_FLAG_SR_def NDEF_FLAG_IL_def NDEF_TNF_BITS_def
      encode_base64_def b64_encode_length Let_def)
  apply (simp add: b64_char_def char_of_eq_iff)
  done

text \<open>Claim C2, as stated, fails: a record whose payload decodes to 387 bytes is built
  (its flags do not hold SR), and the reporter has no text for its payload, since the
  base64url text of 387 bytes takes 516 characters and the reporter's buffer holds 512.\<close>

theorem report_long_payload_counterexample:
  "build_ndef_msg [rec_long] 1024 = Inr ([193, 3, 0, 0, 1, 131, 65, 66, 67] @ replicate 387 0)
   \<and> b64_decode (r_payload rec_long) = Some (replicate 387 0)
   \<and> nfc_recv_process_ndef_cb 2 ([193, 3, 0, 0, 1, 131, 65, 66, 67] @ replicate 387 0)
       = Inr [\<lparr> e_tnf = 1, e_type = Some ''QUJD'', e_id = Some [], e_payload = None \<rparr>]"
  by (intro conjI build_rec_long b64_decode_long report_rec_long)

text \<open>Claim C2, amended. For records that \<open>build_ndef_msg\<close> encodes within the buffer,
  whose types and ids decode to at most 255 bytes and whose payloads to at most 384, the
  reporter, run over the bytes of the message with a \<^verbatim>\<open>sizeof(*ndef)\<close> of at most 3,
  returns one entry per record, in the order of the records: the TNF and the base64url
  text of the bytes that type, id and payload of the record decode to. Every one of the
  three texts of the record decodes, and the text reported for it decodes to the same
  bytes.\<close>

theorem report_of_built_message:
  assumes "build_ndef_msg recs len = Inr bs" and "length bs \<le> len"
    and "\<forall>r \<in> set recs. fits r" and "sz \<le> 3"
  shows "nfc_recv_process_ndef_cb sz bs = Inr (map entry_of recs)
       \<and> (\<forall>r \<in> set recs.
            b64_decode (r_type r) \<noteq> None \<and> b64_decode (r_id r) \<noteq> None
            \<and> b64_decode (r_payload r) \<noteq> None
            \<and> Option.bind (e_type (entry_of r)) b64_decode = b64_decode (r_type r)
            \<and> Option.bind (e_id (entry_of r)) b64_decode = b64_decode (r_id r)
            \<and> Option.bind (e_payload (entry_of r)) b64_decode = b64_decode (r_payload r))"
proof -
  from assms(1) have loop: "build_ndef_loop len (length recs) 0 [] recs = Inr bs"
    by (simp add: build_ndef_msg_def)
  then have "bs = concat (rec_images (length recs) 0 recs)"
    using build_ndef_loop_images by fastforce
  with report_images [OF loop assms(3,4)]
  have "nfc_recv_process_ndef_cb sz bs = Inr (map entry_of recs)"
    by simp
  moreover have "b64_decode (r_type r) \<noteq> None \<and> b64_decode (r_id r) \<noteq> None
            \<and> b64_decode (r_payload r) \<noteq> None
            \<and> Option.bind (e_type (entry_of r)) b64_decode = b64_decode (r_type r)
            \<and> Option.bind (e_id (entry_of r)) b64_decode = b64_decode (r_id r)
            \<and> Option.bind (e_payload (entry_of r)) b64_decode = b64_decode (r_payload r)"
    if "r \<in> set recs" for r
    using build_ndef_loop_decodes [OF loop that]
    by (simp add: entry_of_def b64_decode_encode)
  ultimately show ?thesis by blast
qed

lemma build_two_records:
  "build_ndef_msg [rec0 0, rec1] 64
   = Inr [129, 3, 0, 0, 0, 3, 65, 66, 67, 68, 69, 70, 90, 1, 3, 2, 65, 65, 66, 68, 69, 70]"
  by (simp add: build_defs rec0_def rec1_def)

lemma entries_two_records:
  "map entry_of [rec0 0, rec1]
   = [\<lparr> e_tnf = 1, e_type = Some ''QUJD'', e_id = Some [], e_payload = Some ''REVG'' \<rparr>,
      \<lparr> e_tnf = 2, e_type = Some ''QQ'', e_id = Some ''QUI'', e_payload = Some ''REVG'' \<rparr>]"
  by (simp add: entry_of_def field_bytes_def rec0_def rec1_def b64_value_def b64_char_def
                char_of_eq_iff NDEF_TNF_BITS_def)

lemma fits_two_records: "\<forall>r \<in> set [rec0 0, rec1]. fits r"
  by (simp add: fits_def field_bytes_def rec0_def rec1_def b64_value_def)

theorem report_of_built_message_witness:
  "nfc_recv_process_ndef_cb 2
     [129, 3, 0, 0, 0, 3, 65, 66, 67, 68, 69, 70, 90, 1, 3, 2, 65, 65, 66, 68, 69, 70]
   = Inr [\<lparr> e_tnf = 1, e_type = Some ''QUJD'', e_id = Some [], e_payload = Some ''REVG'' \<rparr>,
          \<lparr> e_tnf = 2, e_type = Some ''QQ'', e_id = Some ''QUI'', e_payload = Some ''REVG'' \<rparr>]"
proof -
  have "length [129, 3, 0, 0, 0, 3, 65, 66, 67, 68, 69, 70, 90, 1, 3, 2, 65, 65, 66, 68, 69, 70 :: byte]
        \<le> 64" "(2::nat) \<le> 3"
    by simp_all
  from report_of_built_message [OF build_two_records this(1) fits_two_records this(2)]
  show ?thesis by (simp only: entries_two_records)
qed

section \<open>The builder: the derived flags\<close>

lemma b64_decode_nonempty: "b64_decode s = Some bs \<Longrightarrow> (bs = [] \<longleftrightarrow> s = [])"
  by (induction s rule: b64_decode.induct) (auto split: option.splits prod.splits)

lemma flags_two_records:
  "\<forall>r \<in> set [rec0 0, rec1].
     (ucast (r_flags r) :: byte) AND (NDEF_FLAG_MB OR NDEF_FLAG_ME OR NDEF_FLAG_IL) = 0"
  by (simp add: rec0_def rec1_def NDEF_FLAG_MB_def NDEF_FLAG_ME_def NDEF_FLAG_IL_def)

text \<open>Claim C1. For records whose caller-supplied flags hold none of MB, ME and IL (what
  the parser's mask is there for), a message that \<open>build_ndef_msg\<close> returns is the images
  of its records, one after the other; in the header byte of record \<open>i\<close> MB is set exactly
  when the record is the first, ME exactly when it is the last (a single record has
  both), and IL exactly when its id text is not empty, which is exactly when the id
  decodes to at least one byte.\<close>

theorem build_derived_flags:
  assumes "build_ndef_msg recs len = Inr bs"
    and "\<forall>r \<in> set recs.
           (ucast (r_flags r) :: byte) AND (NDEF_FLAG_MB OR NDEF_FLAG_ME OR NDEF_FLAG_IL) = 0"
    and "i < length recs"
  shows "bs = concat (rec_images (length recs) 0 recs)
       \<and> rec_images (length recs) 0 recs ! i = rec_image i (length recs) (recs ! i)
       \<and> (hd (rec_image i (length recs) (recs ! i)) AND NDEF_FLAG_MB \<noteq> 0 \<longleftrightarrow> i = 0)
       \<and> (hd (rec_image i (length recs) (recs ! i)) AND NDEF_FLAG_ME \<noteq> 0
            \<longleftrightarrow> i + 1 = length recs)
       \<and> (hd (rec_image i (length recs) (recs ! i)) AND NDEF_FLAG_IL \<noteq> 0
            \<longleftrightarrow> r_id (recs ! i) \<noteq> [])
       \<and> b64_decode (r_id (recs ! i)) = Some (field_bytes (r_id (recs ! i)))
       \<and> (hd (rec_image i (length recs) (recs ! i)) AND NDEF_FLAG_IL \<noteq> 0
            \<longleftrightarrow> 0 < length (field_bytes (r_id (recs ! i))))"
proof -
  let ?r = "recs ! i"
  let ?n = "length recs"
  let ?f = "ucast (r_flags ?r) :: byte"
  from assms(1) have loop: "build_ndef_loop len ?n 0 [] recs = Inr bs"
    by (simp add: build_ndef_msg_def)
  have img: "bs = concat (rec_images ?n 0 recs)"
    using build_ndef_loop_images [OF loop] by simp
  have nth: "rec_images ?n 0 recs ! i = rec_image i ?n ?r"
    using assms(3) rec_images_nth [of i recs ?n 0] by simp
  from assms(2,3) have "?f AND (NDEF_FLAG_MB OR NDEF_FLAG_ME OR NDEF_FLAG_IL) = 0"
    by simp
  from and_or3_zero [OF this]
  have mb: "?f AND NDEF_FLAG_MB = 0" and me: "?f AND NDEF_FLAG_ME = 0"
    and il: "?f AND NDEF_FLAG_IL = 0"
    by simp_all
  have MB: "hd (rec_image i ?n ?r) AND NDEF_FLAG_MB \<noteq> 0 \<longleftrightarrow> i = 0"
    unfolding hd_rec_image hdr_mb by (rule rec_flags_mb_iff [OF mb])
  have ME: "hd (rec_image i ?n ?r) AND NDEF_FLAG_ME \<noteq> 0 \<longleftrightarrow> i + 1 = ?n"
    unfolding hd_rec_image hdr_me by (rule rec_flags_me_iff [OF me])
  have IL: "hd (rec_image i ?n ?r) AND NDEF_FLAG_IL \<noteq> 0 \<longleftrightarrow> r_id ?r \<noteq> []"
    unfolding hd_rec_image hdr_il using il by (simp add: rec_flags_il)
  from assms(3) have "?r \<in> set recs" by simp
  from build_ndef_loop_decodes [OF loop this]
  have dec: "b64_decode (r_id ?r) = Some (field_bytes (r_id ?r))"
    by simp
  from b64_decode_nonempty [OF dec]
  have "0 < length (field_bytes (r_id ?r)) \<longleftrightarrow> r_id ?r \<noteq> []"
    by simp
  with img nth MB ME IL dec show ?thesis by simp
qed

theorem build_derived_flags_witness:
  "hd (rec_image 0 2 (rec0 0)) AND NDEF_FLAG_MB \<noteq> 0
   \<and> hd (rec_image 0 2 (rec0 0)) AND NDEF_FLAG_ME = 0
   \<and> hd (rec_image 0 2 (rec0 0)) AND NDEF_FLAG_IL = 0
   \<and> field_bytes (r_id (rec0 0)) = []
   \<and> hd (rec_image 1 2 rec1) AND NDEF_FLAG_MB = 0
   \<and> hd (rec_image 1 2 rec1) AND NDEF_FLAG_ME \<noteq> 0
   \<and> hd (rec_image 1 2 rec1) AND NDEF_FLAG_IL \<noteq> 0
   \<and> 0 < length (field_bytes (r_id rec1))"
proof -
  have l: "length [rec0 0, rec1] = 2" "[rec0 0, rec1] ! 0 = rec0 0" "[rec0 0, rec1] ! 1 = rec1"
    by simp_all
  have i0: "0 < length [rec0 0, rec1]" and i1: "1 < length [rec0 0, rec1]"
    by simp_all
  have ids: "r_id (rec0 0) = []" "r_id rec1 \<noteq> []"
    by (simp_all add: rec0_def rec1_def)
  note first = build_derived_flags [OF build_two_records flags_two_records i0, unfolded l]
  note second = build_derived_flags [OF build_two_records flags_two_records i1, unfolded l]
  from first second ids show ?thesis by auto
qed

end
